theory Spec2Isabelle
  imports Complex_Main "HOL-Library.Word"
begin

unbundle bit_operations_syntax

section \<open>MicromegasRawDataEvaluation: data model\<close>

text \<open>
  The embedding follows \<^verbatim>\<open>MicromegasRawDataEvaluation.cc\<close>. Machine integers are
  words of the declared width. The class declaration (\<^verbatim>\<open>MicromegasRawDataEvaluation.h\<close>)
  and \<^verbatim>\<open>MicromegasDefs.h\<close> are not part of the sources at hand: the records below list
  the fields the \<^verbatim>\<open>.cc\<close> file reads and writes, and constants declared there are
  parameters (record \<open>config\<close>).
\<close>

type_synonym u16 = "16 word"
type_synonym u32 = "32 word"
type_synonym u64 = "64 word"

text \<open>
  Modelled from the spec: \<^verbatim>\<open>class Sample\<close> is declared in the header. The fields are
  those assigned in \<^verbatim>\<open>process_event\<close> and read in \<^verbatim>\<open>Waveform::copy_from\<close>; the widths
  of \<open>fee_bco\<close>, \<open>lvl1_bco\<close>, \<open>lvl1_bco_masked\<close>, \<open>sample\<close> and \<open>adc\<close> are the spec's
  (u32, u64, u32, u16, u16), \<open>fee_id\<close> is the key type of \<^verbatim>\<open>bco_list_map\<close>
  (\<^verbatim>\<open>unsigned short\<close>), and \<open>pedestal\<close>, \<open>rms\<close> are doubles, read as the real
  numbers they denote.
\<close>

record Sample =
  packet_id :: u32
  lvl1_bco :: u64
  fee_bco :: u32
  lvl1_bco_masked :: u32
  checksum :: u32
  checksum_error :: u32
  fee_id :: u16
  layer :: u16
  tile :: u16
  sampa_address :: u16
  sampa_channel :: u16
  channel :: u16
  strip :: u16
  sample :: u16
  adc :: u16
  pedestal :: real
  rms :: real

text \<open>
  Modelled from the spec: the default member initialisers of \<^verbatim>\<open>Sample\<close> are in the
  header; the spec calls a default-constructed Sample "zero-initialized".
\<close>

definition Sample_default :: Sample where
  "Sample_default =
     \<lparr> Sample.packet_id = 0, Sample.lvl1_bco = 0, Sample.fee_bco = 0, lvl1_bco_masked = 0,
       Sample.checksum = 0, Sample.checksum_error = 0, Sample.fee_id = 0, Sample.layer = 0,
       Sample.tile = 0, Sample.sampa_address = 0, Sample.sampa_channel = 0,
       Sample.channel = 0, Sample.strip = 0, sample = 0, adc = 0,
       Sample.pedestal = 0, Sample.rms = 0 \<rparr>"

record Waveform =
  packet_id :: u32
  lvl1_bco :: u64
  fee_bco :: u32
  checksum :: u32
  checksum_error :: u32
  fee_id :: u16
  layer :: u16
  tile :: u16
  sampa_address :: u16
  sampa_channel :: u16
  channel :: u16
  strip :: u16
  sample_max :: u16
  adc_max :: u16
  pedestal :: real
  rms :: real
  is_signal :: bool

text \<open>
  Modelled from the spec: the default member initialisers of \<^verbatim>\<open>Waveform\<close> and its
  constructor from a Sample are in the header; the constructor is taken to be
  \<^verbatim>\<open>copy_from\<close> on a default (all zero, \<open>is_signal = false\<close>) Waveform.
\<close>

definition Waveform_default :: Waveform where
  "Waveform_default =
     \<lparr> Waveform.packet_id = 0, Waveform.lvl1_bco = 0, Waveform.fee_bco = 0,
       Waveform.checksum = 0, Waveform.checksum_error = 0, Waveform.fee_id = 0,
       Waveform.layer = 0, Waveform.tile = 0, Waveform.sampa_address = 0,
       Waveform.sampa_channel = 0, Waveform.channel = 0, Waveform.strip = 0,
       sample_max = 0, adc_max = 0, Waveform.pedestal = 0, Waveform.rms = 0,
       is_signal = False \<rparr>"

text \<open>\<^verbatim>\<open>Waveform::copy_from\<close> (lines 65-83).\<close>

definition copy_from :: "Waveform \<Rightarrow> Sample \<Rightarrow> Waveform" where
  "copy_from w smp =
     w\<lparr> Waveform.packet_id := Sample.packet_id smp,
        Waveform.lvl1_bco := Sample.lvl1_bco smp,
        Waveform.fee_bco := Sample.fee_bco smp,
        Waveform.checksum := Sample.checksum smp,
        Waveform.checksum_error := Sample.checksum_error smp,
        Waveform.fee_id := Sample.fee_id smp,
        Waveform.layer := Sample.layer smp,
        Waveform.tile := Sample.tile smp,
        Waveform.sampa_address := Sample.sampa_address smp,
        Waveform.sampa_channel := Sample.sampa_channel smp,
        Waveform.channel := Sample.channel smp,
        Waveform.strip := Sample.strip smp,
        sample_max := sample smp,
        adc_max := adc smp,
        Waveform.pedestal := Sample.pedestal smp,
        Waveform.rms := Sample.rms smp \<rparr>"

record TaggerInformation =
  packet_id :: u32
  tagger_type :: u16
  is_lvl1 :: "8 word"
  is_endat :: "8 word"
  bco :: u64
  last_bco :: u64
  lvl1_count :: u32
  endat_count :: u32

record Container =
  samples :: "Sample list"
  waveforms :: "Waveform list"
  taggers :: "TaggerInformation list"

text \<open>\<^verbatim>\<open>Container::Reset\<close> (lines 86-91).\<close>

definition Reset :: "Container \<Rightarrow> Container" where
  "Reset c = c\<lparr> samples := [], waveforms := [], taggers := [] \<rparr>"

subsection \<open>The decoded input\<close>

text \<open>
  A packet is read through \<^verbatim>\<open>lValue\<close> and \<^verbatim>\<open>iValue\<close>. One row of its tagger table
  and one row of its waveform table hold the values those calls return, already cast
  to the type of the field they are stored in. \<open>ADC row i\<close> is
  \<^verbatim>\<open>packet->iValue(iwf, i)\<close> cast to \<^verbatim>\<open>uint16_t\<close>. The row counts \<^verbatim>\<open>N_TAGGER\<close> and
  \<^verbatim>\<open>NR_WF\<close> are the lengths of the two tables.
\<close>

record tagger_row =
  TAGGER_TYPE :: u16
  IS_LEVEL1_TRIGGER :: "8 word"
  IS_ENDAT :: "8 word"
  TAGGER_BCO :: u64
  LAST_BCO :: u64
  LEVEL1_COUNT :: u32
  ENDAT_COUNT :: u32

record waveform_row =
  FEE :: u16
  CHANNEL :: u16
  BCO :: u32
  CHECKSUM :: u32
  CHECKSUMERROR :: u32
  SAMPAADDRESS :: u16
  SAMPACHANNEL :: u16
  SAMPLES :: u16
  ADC :: "nat \<Rightarrow> u16"

record Packet =
  tagger_table :: "tagger_row list"
  waveform_table :: "waveform_row list"

record Event =
  getEvtType :: int
  getPacket :: "u32 \<rightharpoonup> Packet"

datatype Fun4AllReturnCodes = EVENT_OK | DISCARDEVENT

subsection \<open>Configuration and collaborators\<close>

text \<open>
  Modelled from the spec: the members \<^verbatim>\<open>m_flags\<close>, \<^verbatim>\<open>m_min_adc\<close>, \<^verbatim>\<open>m_sample_min\<close>,
  \<^verbatim>\<open>m_sample_max\<close>, \<^verbatim>\<open>m_n_sigma\<close>, the constants \<^verbatim>\<open>m_adc_invalid\<close>,
  \<^verbatim>\<open>m_nchannels_fee\<close>, \<^verbatim>\<open>m_packet_ids\<close> and the mapping and calibration services are
  declared outside the sources at hand, so they are parameters. The three tests on
  \<^verbatim>\<open>m_flags\<close> (\<^verbatim>\<open>m_flags & EvalTagger\<close>, \<^verbatim>\<open>m_flags & EvalSample\<close>,
  \<^verbatim>\<open>m_flags & EvalWaveform\<close>) are three booleans, so
  \<^verbatim>\<open>m_flags & (EvalSample | EvalWaveform)\<close> is their disjunction. \<open>Verbosity\<close> is the
  value of \<^verbatim>\<open>Verbosity()\<close>. Double arithmetic is real arithmetic followed by the
  rounding \<open>fl\<close>, a parameter too.
\<close>

record config =
  Verbosity :: int
  EvalTagger :: bool
  EvalSample :: bool
  EvalWaveform :: bool
  m_min_adc :: real
  m_sample_min :: int
  m_sample_max :: int
  m_n_sigma :: real
  m_adc_invalid :: u16
  m_nchannels_fee :: int
  m_packet_ids :: "u32 list"
  get_layer :: "u16 \<Rightarrow> u16"
  get_tile :: "u16 \<Rightarrow> u16"
  get_physical_strip :: "u16 \<Rightarrow> u16 \<Rightarrow> u16"
  get_pedestal :: "u16 \<Rightarrow> u16 \<Rightarrow> real"
  get_rms :: "u16 \<Rightarrow> u16 \<Rightarrow> real"
  fl :: "real \<Rightarrow> real"

subsection \<open>State\<close>

text \<open>
  The members that persist from one event to the next are \<open>m_fee_bco_matching_map\<close>,
  \<open>m_bco_map\<close> and \<open>m_container\<close>. \<open>sample_map\<close> and \<open>waveform_map\<close> are the locals of
  one call of \<^verbatim>\<open>process_event\<close>; \<open>bco_list_map\<close> and \<open>orphans\<close> are the locals of one
  iteration of its packet loop (lines 206-210). Each is set to its initial value
  where the source declares it. \<open>cout_orphans\<close> collects, in order, the
  (fee_id, fee_bco) pairs of the lines \<^verbatim>\<open>gtm_bco: none\<close> written to \<^verbatim>\<open>std::cout\<close>.

  \<open>sample_emplaced\<close> and \<open>waveform_emplaced\<close> are history variables: they record the
  arguments of the calls \<^verbatim>\<open>sample_map.emplace\<close> and \<^verbatim>\<open>waveform_map.emplace\<close> of one
  event in the order of the calls, and nothing reads them.

  A \<^verbatim>\<open>std::multimap\<close> is the list of its entries in iteration order; a \<^verbatim>\<open>std::map\<close>
  that the code iterates (\<open>m_bco_map\<close>) is the list of its entries in key order; a
  \<^verbatim>\<open>std::map\<close> that is only subscripted is a partial function.
\<close>

record eval_state =
  m_fee_bco_matching_map :: "u16 \<rightharpoonup> (u32 \<times> u64)"
  m_bco_map :: "(u64 \<times> u32) list"
  m_container :: Container
  sample_map :: "(u64 \<times> Sample) list"
  waveform_map :: "(u64 \<times> Waveform) list"
  bco_list_map :: "u16 \<rightharpoonup> u64 list"
  orphans :: "(u32 \<times> u32) set"
  cout_orphans :: "(u16 \<times> u32) list"
  sample_emplaced :: "Sample list"
  waveform_emplaced :: "Waveform list"

section \<open>Operations\<close>

text \<open>\<^verbatim>\<open>get_bco_diff\<close> (lines 58-60).\<close>

definition get_bco_diff :: "'a::len word \<Rightarrow> 'a word \<Rightarrow> 'a word" where
  "get_bco_diff first second = (if first < second then second - first else first - second)"

text \<open>\<^verbatim>\<open>static constexpr unsigned int max_fee_bco_diff = 10\<close> (line 242).\<close>

definition max_fee_bco_diff :: u32 where
  "max_fee_bco_diff = 10"

text \<open>
  \<^verbatim>\<open>std::map::operator[]\<close>: the map after the call (a value-initialised entry is
  inserted for a missing key) and the entry referred to.
\<close>

definition subscript_map :: "('k \<rightharpoonup> 'v) \<Rightarrow> 'k \<Rightarrow> 'v \<Rightarrow> ('k \<rightharpoonup> 'v)" where
  "subscript_map m k d = (case m k of None \<Rightarrow> m(k \<mapsto> d) | Some v \<Rightarrow> m)"

definition subscript_ref :: "('k \<rightharpoonup> 'v) \<Rightarrow> 'k \<Rightarrow> 'v \<Rightarrow> 'v" where
  "subscript_ref m k d = (case m k of None \<Rightarrow> d | Some v \<Rightarrow> v)"

text \<open>
  \<^verbatim>\<open>std::set::insert\<close>: the set after the call and the \<^verbatim>\<open>second\<close> component of
  the pair it returns, true when the element was not in the set.
\<close>

definition set_insert :: "'a set \<Rightarrow> 'a \<Rightarrow> 'a set \<times> bool" where
  "set_insert S x = (insert x S, x \<notin> S)"

text \<open>
  \<^verbatim>\<open>std::multimap::emplace\<close>: the new entry goes to the upper bound of its key, that
  is after every entry whose key is not greater.
\<close>

fun emplace :: "u64 \<Rightarrow> 'v \<Rightarrow> (u64 \<times> 'v) list \<Rightarrow> (u64 \<times> 'v) list" where
  "emplace k v [] = [(k, v)]"
| "emplace k v ((k', v') # m) =
     (if k < k' then (k, v) # (k', v') # m else (k', v') # emplace k v m)"

text \<open>\<^verbatim>\<open>++m_bco_map[key]\<close> (line 300) on the key-ordered entries of the map.\<close>

fun increment :: "u64 \<Rightarrow> (u64 \<times> u32) list \<Rightarrow> (u64 \<times> u32) list" where
  "increment k [] = [(k, 1)]"
| "increment k ((k', c) # m) =
     (if k = k' then (k', c + 1) # m
      else if k < k' then (k, 1) # (k', c) # m
      else (k', c) # increment k m)"

text \<open>
  Lines 238-293: the matching of the running sample's \<open>fee_bco\<close> to a lvl1 bco. The
  result is the running sample and the state after the block.
\<close>

definition find_matching_lvl1_bco ::
  "config \<Rightarrow> u64 list \<Rightarrow> Sample \<Rightarrow> eval_state \<Rightarrow> Sample \<times> eval_state" where
  "find_matching_lvl1_bco cfg main_bco_list smp st =
     (let fee = Sample.fee_id smp;
          bco_matching_pair = subscript_ref (m_fee_bco_matching_map st) fee (0, 0);
          st1 = st\<lparr> m_fee_bco_matching_map :=
                      subscript_map (m_fee_bco_matching_map st) fee (0, 0) \<rparr>
      in if get_bco_diff (Sample.fee_bco smp) (fst bco_matching_pair) < max_fee_bco_diff
         then
           (smp\<lparr> Sample.lvl1_bco := snd bco_matching_pair,
                 lvl1_bco_masked := ucast (snd bco_matching_pair AND 0xFFFFF) \<rparr>,
            st1)
         else
           (let bco_list = subscript_ref (bco_list_map st1) fee main_bco_list;
                st2 = st1\<lparr> bco_list_map :=
                             subscript_map (bco_list_map st1) fee main_bco_list \<rparr>
            in case bco_list of
                 lvl1 # rest \<Rightarrow>
                   (smp\<lparr> Sample.lvl1_bco := lvl1,
                         lvl1_bco_masked := ucast (lvl1 AND 0xFFFFF) \<rparr>,
                    st2\<lparr> m_fee_bco_matching_map :=
                           (m_fee_bco_matching_map st2)(fee \<mapsto> (Sample.fee_bco smp, lvl1)),
                         bco_list_map := (bco_list_map st2)(fee \<mapsto> rest) \<rparr>)
               | [] \<Rightarrow>
                   (smp,
                    if Verbosity cfg \<noteq> 0
                    then
                      (let (orphans', inserted) =
                             set_insert (orphans st2) (ucast fee, Sample.fee_bco smp);
                           st3 = st2\<lparr> orphans := orphans' \<rparr>
                       in if inserted
                          then st3\<lparr> cout_orphans :=
                                      cout_orphans st3 @ [(fee, Sample.fee_bco smp)] \<rparr>
                          else st3)
                    else st2)))"

text \<open>
  The body of the sample loop (lines 332-348) for index \<open>i\<close>, on the running sample,
  \<open>sample_max\<close> and the state.
\<close>

definition scan_step ::
  "config \<Rightarrow> waveform_row \<Rightarrow> nat \<Rightarrow> Sample \<times> Sample \<times> eval_state
     \<Rightarrow> Sample \<times> Sample \<times> eval_state" where
  "scan_step cfg row i = (\<lambda>(smp, smp_max, st).
     if ADC row i = m_adc_invalid cfg then (smp, smp_max, st)
     else
       (let smp' = smp\<lparr> sample := of_nat i, adc := ADC row i \<rparr>;
            st' = st\<lparr> sample_map := emplace (Sample.lvl1_bco smp') smp' (sample_map st),
                      sample_emplaced := sample_emplaced st @ [smp'] \<rparr>
        in (smp', if adc smp' > adc smp_max then smp' else smp_max, st')))"

text \<open>
  The sample loop: \<open>sample_max\<close> starts as a default Sample and \<open>i\<close> runs below
  \<^verbatim>\<open>std::min<unsigned short>(samples, 1024)\<close>.
\<close>

definition scan_samples ::
  "config \<Rightarrow> waveform_row \<Rightarrow> Sample \<Rightarrow> eval_state \<Rightarrow> Sample \<times> Sample \<times> eval_state" where
  "scan_samples cfg row smp st =
     fold (scan_step cfg row) [0 ..< unat (min (SAMPLES row) 1024)] (smp, Sample_default, st)"

text \<open>Lines 352-359: the waveform of \<open>sample_max\<close> and its \<open>is_signal\<close> flag.\<close>

definition make_waveform :: "config \<Rightarrow> Sample \<Rightarrow> real \<Rightarrow> real \<Rightarrow> Waveform" where
  "make_waveform cfg smp_max ped r =
     (let waveform = copy_from Waveform_default smp_max
      in waveform\<lparr> is_signal :=
           (r > 0 \<and>
            real_of_int (uint (adc_max waveform)) \<ge> m_min_adc cfg \<and>
            uint (sample_max waveform) \<ge> m_sample_min cfg \<and>
            uint (sample_max waveform) < m_sample_max cfg \<and>
            real_of_int (uint (adc_max waveform)) > fl cfg (ped + fl cfg (m_n_sigma cfg * r))) \<rparr>)"

text \<open>
  The body of the waveform loop (lines 214-362) for one row of the waveform table;
  \<open>running_sample\<close> is the running sample as lines 215-223 set it up.
\<close>

definition running_sample :: "config \<Rightarrow> u32 \<Rightarrow> waveform_row \<Rightarrow> Sample" where
  "running_sample cfg pid row =
     Sample_default\<lparr> Sample.packet_id := pid, Sample.fee_id := FEE row,
       Sample.layer := get_layer cfg (FEE row),
       Sample.tile := get_tile cfg (FEE row),
       Sample.channel := CHANNEL row \<rparr>"

definition process_waveform ::
  "config \<Rightarrow> u32 \<Rightarrow> u64 list \<Rightarrow> waveform_row \<Rightarrow> eval_state \<Rightarrow> eval_state" where
  "process_waveform cfg pid main_bco_list row st =
     (let smp0 = running_sample cfg pid row
      in if uint (Sample.channel smp0) \<ge> m_nchannels_fee cfg then st
         else
           (let smp1 = smp0\<lparr> Sample.fee_bco := BCO row, Sample.lvl1_bco := 0,
                             lvl1_bco_masked := 0 \<rparr>;
                (smp2, st1) = find_matching_lvl1_bco cfg main_bco_list smp1 st;
                smp3 = smp2\<lparr> Sample.checksum := CHECKSUM row,
                             Sample.checksum_error := CHECKSUMERROR row \<rparr>;
                st2 = st1\<lparr> m_bco_map := increment (Sample.lvl1_bco smp3) (m_bco_map st1) \<rparr>;
                ped = get_pedestal cfg (Sample.fee_id smp3) (Sample.channel smp3);
                r = get_rms cfg (Sample.fee_id smp3) (Sample.channel smp3);
                smp4 = smp3\<lparr> Sample.sampa_address := SAMPAADDRESS row,
                             Sample.sampa_channel := SAMPACHANNEL row,
                             Sample.strip :=
                               get_physical_strip cfg (Sample.fee_id smp3) (Sample.channel smp3),
                             Sample.pedestal := ped, Sample.rms := r \<rparr>;
                (smp5, smp_max, st3) = scan_samples cfg row smp4 st2
            in if EvalWaveform cfg
               then
                 (let waveform = make_waveform cfg smp_max ped r
                  in st3\<lparr> waveform_map :=
                            emplace (Waveform.lvl1_bco waveform) waveform (waveform_map st3),
                          waveform_emplaced := waveform_emplaced st3 @ [waveform] \<rparr>)
               else st3))"

text \<open>The waveform loop (line 212).\<close>

definition process_waveforms ::
  "config \<Rightarrow> u32 \<Rightarrow> u64 list \<Rightarrow> waveform_row list \<Rightarrow> eval_state \<Rightarrow> eval_state" where
  "process_waveforms cfg pid main_bco_list rows st =
     fold (process_waveform cfg pid main_bco_list) rows st"

text \<open>
  The body of the tagger loop (lines 158-180), on the state and \<open>main_bco_list\<close>.
\<close>

definition process_tagger ::
  "config \<Rightarrow> u32 \<Rightarrow> tagger_row \<Rightarrow> eval_state \<times> u64 list \<Rightarrow> eval_state \<times> u64 list" where
  "process_tagger cfg pid row = (\<lambda>(st, main_bco_list).
     let tagger = \<lparr> TaggerInformation.packet_id = pid, tagger_type = TAGGER_TYPE row,
                    is_lvl1 = IS_LEVEL1_TRIGGER row, is_endat = IS_ENDAT row,
                    bco = TAGGER_BCO row, last_bco = LAST_BCO row,
                    lvl1_count = LEVEL1_COUNT row, endat_count = ENDAT_COUNT row \<rparr>;
         st' = (if EvalTagger cfg
                then st\<lparr> m_container :=
                           (m_container st)\<lparr> taggers := taggers (m_container st) @ [tagger] \<rparr> \<rparr>
                else st)
     in (st',
         if is_lvl1 tagger \<noteq> 0 \<and> (EvalSample cfg \<or> EvalWaveform cfg)
         then main_bco_list @ [bco tagger] else main_bco_list))"

text \<open>The body of the packet loop (lines 139-365) for one packet id.\<close>

definition process_packet :: "config \<Rightarrow> Event \<Rightarrow> u32 \<Rightarrow> eval_state \<Rightarrow> eval_state" where
  "process_packet cfg event pid st =
     (case getPacket event pid of
        None \<Rightarrow> st
      | Some packet \<Rightarrow>
          (let (st1, main_bco_list) = fold (process_tagger cfg pid) (tagger_table packet) (st, [])
           in if EvalSample cfg \<or> EvalWaveform cfg
              then process_waveforms cfg pid main_bco_list (waveform_table packet)
                     (st1\<lparr> bco_list_map := Map.empty, orphans := {} \<rparr>)
              else st1))"

text \<open>
  \<^verbatim>\<open>process_event\<close> (lines 119-392). Filling the evaluation tree is left to the
  external sink.
\<close>

definition process_event :: "config \<Rightarrow> Event \<Rightarrow> eval_state \<Rightarrow> Fun4AllReturnCodes \<times> eval_state" where
  "process_event cfg event st =
     (if getEvtType event \<ge> 8 then (DISCARDEVENT, st)
      else
        (let st0 = st\<lparr> m_container := Reset (m_container st),
                        sample_map := [], waveform_map := [],
                        sample_emplaced := [], waveform_emplaced := [] \<rparr>;
             st1 = fold (process_packet cfg event) (m_packet_ids cfg) st0;
             st2 = (if EvalSample cfg
                    then st1\<lparr> m_container :=
                           (m_container st1)\<lparr> samples :=
                              samples (m_container st1) @ map snd (sample_map st1) \<rparr> \<rparr>
                    else st1);
             st3 = (if EvalWaveform cfg
                    then st2\<lparr> m_container :=
                           (m_container st2)\<lparr> waveforms :=
                              waveforms (m_container st2) @ map snd (waveform_map st2) \<rparr> \<rparr>
                    else st2)
         in (EVENT_OK, st3)))"

text \<open>
  \<^verbatim>\<open>End\<close> (lines 395-439): what it prints from \<open>m_bco_map\<close> (the lines
  \<^verbatim>\<open>bco: ..., nwaveforms: ...\<close> and the bco list), and the state after it.
\<close>

definition End :: "config \<Rightarrow> eval_state \<Rightarrow> ((u64 \<times> u32) list \<times> u64 list) \<times> eval_state" where
  "End cfg st =
     ((if Verbosity cfg \<noteq> 0 then m_bco_map st else [],
       if Verbosity cfg \<noteq> 0 then map fst (m_bco_map st) else []),
      st)"

section \<open>Notions used in the statements\<close>

text \<open>
  The state of a freshly constructed module: every container empty.
\<close>

definition initial_state :: eval_state where
  "initial_state =
     \<lparr> m_fee_bco_matching_map = Map.empty, m_bco_map = [],
       m_container = \<lparr> samples = [], waveforms = [], taggers = [] \<rparr>,
       sample_map = [], waveform_map = [], bco_list_map = Map.empty, orphans = {},
       cout_orphans = [], sample_emplaced = [], waveform_emplaced = [] \<rparr>"

text \<open>
  The cached MatchState of a FEE is the pair that \<^verbatim>\<open>m_fee_bco_matching_map[fee_id]\<close>
  refers to, (0, 0) for a FEE with no entry yet. The CandidateQueue of a FEE is the
  list that \<^verbatim>\<open>bco_list_map\<close> holds for it, the packet's \<open>main_bco_list\<close> for a FEE with
  no entry yet (the entry is created from it on first use).
\<close>

definition match_state :: "eval_state \<Rightarrow> u16 \<Rightarrow> u32 \<times> u64" where
  "match_state st f = subscript_ref (m_fee_bco_matching_map st) f (0, 0)"

definition candidate_queue :: "u64 list \<Rightarrow> eval_state \<Rightarrow> u16 \<Rightarrow> u64 list" where
  "candidate_queue main_bco_list st f = subscript_ref (bco_list_map st) f main_bco_list"

text \<open>
  A fee_bco is within tolerance of the cached value of FEE \<open>f\<close> when the absolute
  difference of the two numbers is below 10.
\<close>

definition in_tolerance :: "eval_state \<Rightarrow> u16 \<Rightarrow> u32 \<Rightarrow> bool" where
  "in_tolerance st f b = (\<bar>uint b - uint (fst (match_state st f))\<bar> < 10)"

text \<open>
  A row passes the bound check of line 226 when its channel is below
  \<open>m_nchannels_fee\<close>; \<open>matching_input\<close> is the running sample of such a row when the
  matching starts (line 238).
\<close>

definition accepted :: "config \<Rightarrow> waveform_row \<Rightarrow> bool" where
  "accepted cfg row = (uint (CHANNEL row) < m_nchannels_fee cfg)"

definition matching_input :: "config \<Rightarrow> u32 \<Rightarrow> waveform_row \<Rightarrow> Sample" where
  "matching_input cfg pid row =
     (running_sample cfg pid row)\<lparr> Sample.fee_bco := BCO row, Sample.lvl1_bco := 0,
        lvl1_bco_masked := 0 \<rparr>"

text \<open>
  The number of rows of a waveform table that reach the matching for FEE \<open>f\<close> and
  are out of tolerance when they do, the table being processed from state \<open>st\<close>.
\<close>

fun consuming_calls ::
  "config \<Rightarrow> u32 \<Rightarrow> u64 list \<Rightarrow> u16 \<Rightarrow> waveform_row list \<Rightarrow> eval_state \<Rightarrow> nat" where
  "consuming_calls cfg pid main f [] st = 0"
| "consuming_calls cfg pid main f (row # rows) st =
     (if accepted cfg row \<and> FEE row = f \<and> \<not> in_tolerance st f (BCO row) then 1 else 0)
     + consuming_calls cfg pid main f rows (process_waveform cfg pid main row st)"

text \<open>
  The Sample records of one row: \<open>sample_at row smp i\<close> is the running sample \<open>smp\<close>
  with index \<open>i\<close> and its ADC value; \<open>valid_samples\<close> are those of the indices
  whose ADC value is not \<open>m_adc_invalid\<close>; \<open>scanned row\<close> is the number of indices
  the sample loop visits; \<open>filled_sample\<close> is the running sample after lines 295-311;
  \<open>row_samples\<close> are the Sample records of a row that passes the bound check.
  \<open>emplace_all\<close> emplaces a list of records in order, each under its key;
  \<open>peak_of\<close> is the update of \<open>sample_max\<close> (line 344) over a list of records.
\<close>

definition sample_at :: "waveform_row \<Rightarrow> Sample \<Rightarrow> nat \<Rightarrow> Sample" where
  "sample_at row smp i = smp\<lparr> sample := of_nat i, adc := ADC row i \<rparr>"

definition valid_samples :: "config \<Rightarrow> waveform_row \<Rightarrow> Sample \<Rightarrow> nat list \<Rightarrow> Sample list" where
  "valid_samples cfg row smp ixs =
     map (sample_at row smp) (filter (\<lambda>i. ADC row i \<noteq> m_adc_invalid cfg) ixs)"

definition scanned :: "waveform_row \<Rightarrow> nat" where
  "scanned row = unat (min (SAMPLES row) 1024)"

definition filled_sample :: "config \<Rightarrow> waveform_row \<Rightarrow> Sample \<Rightarrow> Sample" where
  "filled_sample cfg row smp =
     smp\<lparr> Sample.checksum := CHECKSUM row, Sample.checksum_error := CHECKSUMERROR row,
          Sample.sampa_address := SAMPAADDRESS row, Sample.sampa_channel := SAMPACHANNEL row,
          Sample.strip := get_physical_strip cfg (Sample.fee_id smp) (Sample.channel smp),
          Sample.pedestal := get_pedestal cfg (Sample.fee_id smp) (Sample.channel smp),
          Sample.rms := get_rms cfg (Sample.fee_id smp) (Sample.channel smp) \<rparr>"

definition row_samples ::
  "config \<Rightarrow> u32 \<Rightarrow> u64 list \<Rightarrow> waveform_row \<Rightarrow> eval_state \<Rightarrow> Sample list" where
  "row_samples cfg pid main row st =
     valid_samples cfg row
       (filled_sample cfg row
          (fst (find_matching_lvl1_bco cfg main (matching_input cfg pid row) st)))
       [0 ..< scanned row]"

definition emplace_all :: "('v \<Rightarrow> u64) \<Rightarrow> 'v list \<Rightarrow> (u64 \<times> 'v) list \<Rightarrow> (u64 \<times> 'v) list" where
  "emplace_all key news m = fold (\<lambda>s. emplace (key s) s) news m"

definition peak_of :: "Sample list \<Rightarrow> Sample \<Rightarrow> Sample" where
  "peak_of news m = fold (\<lambda>s m. if adc s > adc m then s else m) news m"

text \<open>
  Index \<open>i\<close> is the first maximum of the \<open>n\<close> scanned entries of a row when its ADC
  value is not the sentinel, no non-sentinel entry among them is greater, and every
  non-sentinel entry before it is smaller.
\<close>

definition first_maximum :: "config \<Rightarrow> waveform_row \<Rightarrow> nat \<Rightarrow> nat \<Rightarrow> bool" where
  "first_maximum cfg row n i \<longleftrightarrow>
     i < n \<and> ADC row i \<noteq> m_adc_invalid cfg
     \<and> (\<forall>j<n. ADC row j \<noteq> m_adc_invalid cfg \<longrightarrow> ADC row j \<le> ADC row i)
     \<and> (\<forall>j<i. ADC row j \<noteq> m_adc_invalid cfg \<longrightarrow> ADC row j < ADC row i)"

text \<open>
  The invariant of the two multimaps within one event: each holds what its emplace
  calls put into it, and the container's sample and waveform lists stay empty until
  the maps are copied.
\<close>

definition maps_inv :: "eval_state \<Rightarrow> bool" where
  "maps_inv st \<longleftrightarrow>
     sample_map st = emplace_all Sample.lvl1_bco (sample_emplaced st) []
     \<and> waveform_map st = emplace_all Waveform.lvl1_bco (waveform_emplaced st) []
     \<and> samples (m_container st) = [] \<and> waveforms (m_container st) = []"

text \<open>
  The count that \<open>m_bco_map\<close> holds for a key (0 for a key it does not hold).
\<close>

definition bco_count :: "(u64 \<times> u32) list \<Rightarrow> u64 \<Rightarrow> u32" where
  "bco_count m k = (case map_of m k of None \<Rightarrow> 0 | Some c \<Rightarrow> c)"

text \<open>
  The rows of an event that reach line 300: for every packet id of the configuration
  whose packet is present, when samples or waveforms are requested, the rows of its
  waveform table that pass the bound check.
\<close>

definition packet_rows :: "config \<Rightarrow> Event \<Rightarrow> u32 \<Rightarrow> waveform_row list" where
  "packet_rows cfg event pid =
     (case getPacket event pid of
        None \<Rightarrow> []
      | Some packet \<Rightarrow>
          if EvalSample cfg \<or> EvalWaveform cfg
          then filter (accepted cfg) (waveform_table packet) else [])"

definition event_rows :: "config \<Rightarrow> Event \<Rightarrow> waveform_row list" where
  "event_rows cfg event = concat (map (packet_rows cfg event) (m_packet_ids cfg))"

text \<open>
  The invariant of the orphan report within one packet: the lines written since the
  packet started (after \<open>pre\<close>) are pairwise different, each of them is in \<open>orphans\<close>,
  and there are none at verbosity 0.
\<close>

definition orphan_inv :: "config \<Rightarrow> (u16 \<times> u32) list \<Rightarrow> eval_state \<Rightarrow> bool" where
  "orphan_inv cfg pre st \<longleftrightarrow>
     (\<exists>new. cout_orphans st = pre @ new \<and> distinct new
        \<and> (\<lambda>(f, b). (ucast f, b)) ` set new \<subseteq> orphans st
        \<and> (Verbosity cfg = 0 \<longrightarrow> new = []))"

text \<open>
  The state in which the packet loop of an event starts (lines 132-136);
  \<open>main_bco_list_of\<close> is the \<open>main_bco_list\<close> that the tagger loop of a packet
  builds and \<open>loop_start\<close> the state in which its waveform loop starts, with the
  fresh \<open>bco_list_map\<close> and \<open>orphans\<close> of lines 206-210. \<open>lvl1_bcos\<close> and
  \<open>tagger_infos\<close> are what the tagger loop appends to \<open>main_bco_list\<close> and to the
  container.
\<close>

definition event_start :: "eval_state \<Rightarrow> eval_state" where
  "event_start st =
     st\<lparr> m_container := Reset (m_container st), sample_map := [], waveform_map := [],
         sample_emplaced := [], waveform_emplaced := [] \<rparr>"

definition main_bco_list_of :: "config \<Rightarrow> u32 \<Rightarrow> Packet \<Rightarrow> eval_state \<Rightarrow> u64 list" where
  "main_bco_list_of cfg pid packet st =
     snd (fold (process_tagger cfg pid) (tagger_table packet) (st, []))"

definition loop_start :: "config \<Rightarrow> u32 \<Rightarrow> Packet \<Rightarrow> eval_state \<Rightarrow> eval_state" where
  "loop_start cfg pid packet st =
     (fst (fold (process_tagger cfg pid) (tagger_table packet) (st, [])))
       \<lparr> bco_list_map := Map.empty, orphans := {} \<rparr>"

definition lvl1_bcos :: "config \<Rightarrow> tagger_row list \<Rightarrow> u64 list" where
  "lvl1_bcos cfg rows =
     map TAGGER_BCO
       (filter (\<lambda>r. IS_LEVEL1_TRIGGER r \<noteq> 0 \<and> (EvalSample cfg \<or> EvalWaveform cfg)) rows)"

definition tagger_infos :: "config \<Rightarrow> u32 \<Rightarrow> tagger_row list \<Rightarrow> TaggerInformation list" where
  "tagger_infos cfg pid rows =
     (if EvalTagger cfg
      then map (\<lambda>row. \<lparr> TaggerInformation.packet_id = pid, tagger_type = TAGGER_TYPE row,
                    is_lvl1 = IS_LEVEL1_TRIGGER row, is_endat = IS_ENDAT row,
                    bco = TAGGER_BCO row, last_bco = LAST_BCO row,
                    lvl1_count = LEVEL1_COUNT row, endat_count = ENDAT_COUNT row \<rparr>) rows
      else [])"

section \<open>Concrete inputs\<close>

text \<open>
  A configuration with verbosity 1, every output requested, the thresholds of the
  spec's signal classification example, a sentinel ADC value of 65000, 256 channels
  per FEE, one packet id, constant mapping and calibration, and exact arithmetic.
\<close>

definition example_config :: config where
  "example_config =
     \<lparr> Verbosity = 1, EvalTagger = True, EvalSample = True, EvalWaveform = True,
       m_min_adc = 0, m_sample_min = 0, m_sample_max = 1024, m_n_sigma = 3,
       m_adc_invalid = 65000, m_nchannels_fee = 256, m_packet_ids = [5001],
       get_layer = (\<lambda>f. 0), get_tile = (\<lambda>f. 0), get_physical_strip = (\<lambda>f c. 0),
       get_pedestal = (\<lambda>f c. 10), get_rms = (\<lambda>f c. 2), fl = (\<lambda>x. x) \<rparr>"

text \<open>A running sample of FEE 1 with the given fee_bco.\<close>

definition example_sample :: "u32 \<Rightarrow> Sample" where
  "example_sample b = Sample_default\<lparr> Sample.fee_id := 1, Sample.fee_bco := b \<rparr>"

text \<open>
  A waveform row of FEE 1, channel 0, with the given fee_bco and two ADC values, 5
  and 10.
\<close>

definition example_row :: "u32 \<Rightarrow> waveform_row" where
  "example_row b =
     \<lparr> FEE = 1, CHANNEL = 0, BCO = b, CHECKSUM = 0, CHECKSUMERROR = 0, SAMPAADDRESS = 0,
       SAMPACHANNEL = 0, SAMPLES = 2, ADC = (\<lambda>i. if i = 0 then 5 else 10) \<rparr>"

text \<open>A waveform row of FEE 1, channel 0, fee_bco 55, with the given ADC sequence.\<close>

definition adc_row :: "u16 list \<Rightarrow> waveform_row" where
  "adc_row xs =
     \<lparr> FEE = 1, CHANNEL = 0, BCO = 55, CHECKSUM = 0, CHECKSUMERROR = 0, SAMPAADDRESS = 0,
       SAMPACHANNEL = 0, SAMPLES = of_nat (length xs), ADC = (\<lambda>i. xs ! i) \<rparr>"

text \<open>
  An event of one packet with no tagger and one waveform row of FEE 1 with fee_bco 55
  and no sample: the row is an orphan.
\<close>

definition orphan_event :: Event where
  "orphan_event =
     \<lparr> getEvtType = 1,
       getPacket = [5001 \<mapsto> \<lparr> tagger_table = [], waveform_table = [adc_row []] \<rparr>] \<rparr>"

text \<open>
  An event of one packet with two lvl1 taggers, of bco 1000 and 2000, and three
  waveform rows of FEE 1 with fee_bco 55, 200 and 56.
\<close>

definition example_tagger :: "u64 \<Rightarrow> tagger_row" where
  "example_tagger b =
     \<lparr> TAGGER_TYPE = 0, IS_LEVEL1_TRIGGER = 1, IS_ENDAT = 0, TAGGER_BCO = b, LAST_BCO = 0,
       LEVEL1_COUNT = 0, ENDAT_COUNT = 0 \<rparr>"

definition example_event :: Event where
  "example_event =
     \<lparr> getEvtType = 1,
       getPacket =
         [5001 \<mapsto> \<lparr> tagger_table = [example_tagger 1000, example_tagger 2000],
                      waveform_table = [example_row 55, example_row 200, example_row 56] \<rparr>] \<rparr>"

text \<open>
  The packet of the example event, and the state in which its third row is reached.
\<close>

definition example_packet :: Packet where
  "example_packet =
     \<lparr> tagger_table = [example_tagger 1000, example_tagger 2000],
       waveform_table = [example_row 55, example_row 200, example_row 56] \<rparr>"

definition third_row_state :: eval_state where
  "third_row_state =
     process_waveforms example_config 5001 [1000, 2000] [example_row 55, example_row 200]
       (loop_start example_config 5001 example_packet (event_start initial_state))"

text \<open>
  A configuration with two packet ids, and an event in which FEE 1 sends one row in
  each of the two packets: the first packet has one lvl1 tagger, the second three.
\<close>

definition two_packet_config :: config where
  "two_packet_config = example_config\<lparr> m_packet_ids := [5001, 5002] \<rparr>"

definition two_packet_event :: Event where
  "two_packet_event =
     \<lparr> getEvtType = 1,
       getPacket =
         [5001 \<mapsto> \<lparr> tagger_table = [example_tagger 1000],
                      waveform_table = [example_row 55] \<rparr>,
          5002 \<mapsto> \<lparr> tagger_table = [example_tagger 2000, example_tagger 3000,
                                      example_tagger 4000],
                      waveform_table = [example_row 300] \<rparr>] \<rparr>"

text \<open>
  An event in which the same orphan, FEE 1 with fee_bco 55, comes twice in the first
  packet and once in the second; the state after its first packet; and the state
  that the first report of this orphan leaves from the initial state.
\<close>

definition repeated_orphan_event :: Event where
  "repeated_orphan_event =
     \<lparr> getEvtType = 1,
       getPacket =
         [5001 \<mapsto> \<lparr> tagger_table = [], waveform_table = [adc_row [], adc_row []] \<rparr>,
          5002 \<mapsto> \<lparr> tagger_table = [], waveform_table = [adc_row []] \<rparr>] \<rparr>"

definition after_first_packet :: eval_state where
  "after_first_packet =
     process_packet two_packet_config repeated_orphan_event 5001 (event_start initial_state)"

definition reported_state :: eval_state where
  "reported_state =
     initial_state\<lparr> m_fee_bco_matching_map := [1 \<mapsto> (0, 0)], bco_list_map := [1 \<mapsto> []],
        orphans := {(1, 55)}, cout_orphans := [(1, 55)] \<rparr>"

section \<open>Properties of the matching\<close>

lemma uint_get_bco_diff: "uint (get_bco_diff a b) = \<bar>uint a - uint b\<bar>"
  using uint_sub_lem by (force simp: get_bco_diff_def word_less_def)

lemma get_bco_diff_less_iff:
  "get_bco_diff a b < max_fee_bco_diff \<longleftrightarrow> \<bar>uint a - uint b\<bar> < 10"
  by (simp add: word_less_def uint_get_bco_diff max_fee_bco_diff_def)

lemma subscript_ref_subscript_map [simp]:
  "subscript_ref (subscript_map m f d) f' d = subscript_ref m f' d"
  by (simp add: subscript_ref_def subscript_map_def split: option.splits)

lemma subscript_ref_upd [simp]:
  "subscript_ref (m(f \<mapsto> v)) f' d = (if f' = f then v else subscript_ref m f' d)"
  by (simp add: subscript_ref_def)

lemma find_in_tolerance:
  assumes "in_tolerance st (Sample.fee_id smp) (Sample.fee_bco smp)"
  shows "find_matching_lvl1_bco cfg main smp st =
     (smp\<lparr> Sample.lvl1_bco := snd (match_state st (Sample.fee_id smp)),
           lvl1_bco_masked := ucast (snd (match_state st (Sample.fee_id smp)) AND 0xFFFFF) \<rparr>,
      st\<lparr> m_fee_bco_matching_map :=
            subscript_map (m_fee_bco_matching_map st) (Sample.fee_id smp) (0, 0) \<rparr>)"
  using assms
  by (simp add: find_matching_lvl1_bco_def match_state_def Let_def in_tolerance_def
      get_bco_diff_less_iff)

lemma find_pop:
  assumes "\<not> in_tolerance st (Sample.fee_id smp) (Sample.fee_bco smp)"
    and "candidate_queue main st (Sample.fee_id smp) = lvl1 # rest"
  shows "find_matching_lvl1_bco cfg main smp st =
     (smp\<lparr> Sample.lvl1_bco := lvl1, lvl1_bco_masked := ucast (lvl1 AND 0xFFFFF) \<rparr>,
      st\<lparr> m_fee_bco_matching_map :=
            (m_fee_bco_matching_map st)(Sample.fee_id smp \<mapsto> (Sample.fee_bco smp, lvl1)),
          bco_list_map := (bco_list_map st)(Sample.fee_id smp \<mapsto> rest) \<rparr>)"
  using assms
  by (simp add: find_matching_lvl1_bco_def match_state_def Let_def in_tolerance_def
      get_bco_diff_less_iff candidate_queue_def subscript_map_def split: option.splits)

lemma find_orphan:
  assumes "\<not> in_tolerance st (Sample.fee_id smp) (Sample.fee_bco smp)"
    and "candidate_queue main st (Sample.fee_id smp) = []"
  shows "find_matching_lvl1_bco cfg main smp st =
     (smp,
      st\<lparr> m_fee_bco_matching_map :=
            subscript_map (m_fee_bco_matching_map st) (Sample.fee_id smp) (0, 0),
          bco_list_map := subscript_map (bco_list_map st) (Sample.fee_id smp) main,
          orphans :=
            (if Verbosity cfg \<noteq> 0
             then insert (ucast (Sample.fee_id smp), Sample.fee_bco smp) (orphans st)
             else orphans st),
          cout_orphans :=
            (if Verbosity cfg \<noteq> 0
                \<and> (ucast (Sample.fee_id smp), Sample.fee_bco smp) \<notin> orphans st
             then cout_orphans st @ [(Sample.fee_id smp, Sample.fee_bco smp)]
             else cout_orphans st) \<rparr>)"
  using assms
  by (simp add: find_matching_lvl1_bco_def match_state_def Let_def in_tolerance_def
      get_bco_diff_less_iff candidate_queue_def set_insert_def)

lemma find_cases:
  obtains (reuse) "in_tolerance st (Sample.fee_id smp) (Sample.fee_bco smp)"
  | (pop) lvl1 rest where "\<not> in_tolerance st (Sample.fee_id smp) (Sample.fee_bco smp)"
      "candidate_queue main st (Sample.fee_id smp) = lvl1 # rest"
  | (orphan) "\<not> in_tolerance st (Sample.fee_id smp) (Sample.fee_bco smp)"
      "candidate_queue main st (Sample.fee_id smp) = []"
  by (cases "candidate_queue main st (Sample.fee_id smp)") auto

text \<open>
  C2. For a FEE whose cached MatchState is (F0, L0) and an incoming fee_bco whose
  absolute difference to F0 is below the tolerance \<open>max_fee_bco_diff\<close> (10), the
  matching assigns L0, leaves the cached MatchState of every FEE unchanged and
  leaves every candidate queue unchanged; when the FEE already has its entry in
  \<open>m_fee_bco_matching_map\<close>, the whole state is unchanged.
\<close>

theorem tolerance_reuse:
  assumes "match_state st (Sample.fee_id smp) = (F0, L0)"
    and "\<bar>uint (Sample.fee_bco smp) - uint F0\<bar> < uint max_fee_bco_diff"
  shows "Sample.lvl1_bco (fst (find_matching_lvl1_bco cfg main smp st)) = L0
       \<and> match_state (snd (find_matching_lvl1_bco cfg main smp st)) = match_state st
       \<and> bco_list_map (snd (find_matching_lvl1_bco cfg main smp st)) = bco_list_map st
       \<and> candidate_queue main (snd (find_matching_lvl1_bco cfg main smp st))
           = candidate_queue main st
       \<and> (m_fee_bco_matching_map st (Sample.fee_id smp) = Some (F0, L0)
            \<longrightarrow> snd (find_matching_lvl1_bco cfg main smp st) = st)"
proof -
  have tol: "in_tolerance st (Sample.fee_id smp) (Sample.fee_bco smp)"
    using assms by (simp add: in_tolerance_def max_fee_bco_diff_def)
  have same: "match_state (snd (find_matching_lvl1_bco cfg main smp st)) = match_state st"
    unfolding find_in_tolerance[OF tol] by (rule ext) (simp add: match_state_def)
  have queue: "candidate_queue main (snd (find_matching_lvl1_bco cfg main smp st))
      = candidate_queue main st"
    unfolding find_in_tolerance[OF tol] by (rule ext) (simp add: candidate_queue_def)
  show ?thesis
    using assms(1) same queue unfolding find_in_tolerance[OF tol]
    by (simp add: subscript_map_def)
qed

theorem tolerance_reuse_witness:
  "match_state (initial_state\<lparr> m_fee_bco_matching_map := [1 \<mapsto> (55, 1000)] \<rparr>)
       (Sample.fee_id (example_sample 57)) = (55, 1000)
   \<and> \<bar>uint (Sample.fee_bco (example_sample 57)) - uint (55 :: u32)\<bar> < uint max_fee_bco_diff
   \<and> Sample.lvl1_bco (fst (find_matching_lvl1_bco example_config [2000, 3000]
         (example_sample 57)
         (initial_state\<lparr> m_fee_bco_matching_map := [1 \<mapsto> (55, 1000)] \<rparr>))) = 1000
   \<and> snd (find_matching_lvl1_bco example_config [2000, 3000] (example_sample 57)
         (initial_state\<lparr> m_fee_bco_matching_map := [1 \<mapsto> (55, 1000)] \<rparr>))
       = initial_state\<lparr> m_fee_bco_matching_map := [1 \<mapsto> (55, 1000)] \<rparr>"
proof -
  have h1: "match_state (initial_state\<lparr> m_fee_bco_matching_map := [1 \<mapsto> (55, 1000)] \<rparr>)
       (Sample.fee_id (example_sample 57)) = (55, 1000)"
    by (simp add: match_state_def example_sample_def)
  have h2: "\<bar>uint (Sample.fee_bco (example_sample 57)) - uint (55 :: u32)\<bar>
       < uint max_fee_bco_diff"
    by (simp add: example_sample_def max_fee_bco_diff_def)
  show ?thesis
    using h1 h2 tolerance_reuse[OF h1 h2, of example_config "[2000, 3000]"]
    by (simp add: example_sample_def)
qed

text \<open>
  The cached MatchState of a FEE is written only when a call for that FEE takes a
  candidate from its queue; every other call leaves it as it was.
\<close>

lemma match_state_find:
  "match_state (snd (find_matching_lvl1_bco cfg main smp st)) f =
     (if Sample.fee_id smp = f \<and> \<not> in_tolerance st f (Sample.fee_bco smp)
         \<and> candidate_queue main st f \<noteq> []
      then (Sample.fee_bco smp, hd (candidate_queue main st f))
      else match_state st f)"
proof (cases rule: find_cases[where st=st and smp=smp and main=main])
  case reuse
  then show ?thesis
    by (auto simp: find_in_tolerance match_state_def)
next
  case (pop lvl1 rest)
  then show ?thesis
    by (auto simp: find_pop match_state_def)
next
  case orphan
  then show ?thesis
    by (auto simp: find_orphan match_state_def)
qed

text \<open>
  C10. A FEE that never had a successful match has the cached MatchState (0, 0):
  either it has no entry in \<open>m_fee_bco_matching_map\<close> yet, or an earlier lookup
  (an orphan, or a match from this default) left the entry (0, 0). An incoming sample
  of such a FEE whose fee_bco is below 10 is assigned the global timestamp 0 from
  this cache, the FEE has the entry (0, 0) afterwards (the lookup creates it when it
  was missing), and no candidate queue changes, whatever \<open>main_bco_list\<close> holds.
\<close>

theorem default_cache_match:
  assumes "match_state st (Sample.fee_id smp) = (0, 0)"
    and "uint (Sample.fee_bco smp) < 10"
  shows "Sample.lvl1_bco (fst (find_matching_lvl1_bco cfg main smp st)) = 0
       \<and> lvl1_bco_masked (fst (find_matching_lvl1_bco cfg main smp st)) = 0
       \<and> m_fee_bco_matching_map (snd (find_matching_lvl1_bco cfg main smp st))
            (Sample.fee_id smp) = Some (0, 0)
       \<and> match_state (snd (find_matching_lvl1_bco cfg main smp st)) = match_state st
       \<and> bco_list_map (snd (find_matching_lvl1_bco cfg main smp st)) = bco_list_map st
       \<and> candidate_queue main (snd (find_matching_lvl1_bco cfg main smp st))
           = candidate_queue main st
       \<and> (m_fee_bco_matching_map st (Sample.fee_id smp) = None \<longrightarrow>
            find_matching_lvl1_bco cfg main smp st =
              (smp\<lparr> Sample.lvl1_bco := 0, lvl1_bco_masked := 0 \<rparr>,
               st\<lparr> m_fee_bco_matching_map :=
                     (m_fee_bco_matching_map st)(Sample.fee_id smp \<mapsto> (0, 0)) \<rparr>))"
proof -
  have tol: "in_tolerance st (Sample.fee_id smp) (Sample.fee_bco smp)"
    using assms by (simp add: in_tolerance_def)
  note f = find_in_tolerance[OF tol, of cfg main]
  have same: "match_state (snd (find_matching_lvl1_bco cfg main smp st)) = match_state st"
    unfolding f by (rule ext) (simp add: match_state_def)
  have queue: "candidate_queue main (snd (find_matching_lvl1_bco cfg main smp st))
      = candidate_queue main st"
    unfolding f by (rule ext) (simp add: candidate_queue_def)
  have entry: "m_fee_bco_matching_map (snd (find_matching_lvl1_bco cfg main smp st))
      (Sample.fee_id smp) = Some (0, 0)"
    using assms(1) unfolding f
    by (simp add: match_state_def subscript_ref_def subscript_map_def split: option.splits)
  have none: "m_fee_bco_matching_map st (Sample.fee_id smp) = None \<longrightarrow>
      find_matching_lvl1_bco cfg main smp st =
        (smp\<lparr> Sample.lvl1_bco := 0, lvl1_bco_masked := 0 \<rparr>,
         st\<lparr> m_fee_bco_matching_map :=
               (m_fee_bco_matching_map st)(Sample.fee_id smp \<mapsto> (0, 0)) \<rparr>)"
    using assms(1) unfolding f by (simp add: subscript_map_def)
  have val: "Sample.lvl1_bco (fst (find_matching_lvl1_bco cfg main smp st)) = 0
      \<and> lvl1_bco_masked (fst (find_matching_lvl1_bco cfg main smp st)) = 0
      \<and> bco_list_map (snd (find_matching_lvl1_bco cfg main smp st)) = bco_list_map st"
    using assms(1) unfolding f by simp
  show ?thesis using val entry same queue none by blast
qed

theorem default_cache_match_witness:
  "match_state (initial_state\<lparr> m_fee_bco_matching_map := [1 \<mapsto> (0, 0)],
        m_bco_map := [(0, 1)], cout_orphans := [(1, 55)] \<rparr>)
      (Sample.fee_id (example_sample 5)) = (0, 0)
   \<and> uint (Sample.fee_bco (example_sample 5)) < 10
   \<and> Sample.lvl1_bco (fst (find_matching_lvl1_bco example_config [1000, 2000, 3000]
        (example_sample 5)
        (initial_state\<lparr> m_fee_bco_matching_map := [1 \<mapsto> (0, 0)],
           m_bco_map := [(0, 1)], cout_orphans := [(1, 55)] \<rparr>))) = 0
   \<and> candidate_queue [1000, 2000, 3000]
        (snd (find_matching_lvl1_bco example_config [1000, 2000, 3000] (example_sample 5)
           (initial_state\<lparr> m_fee_bco_matching_map := [1 \<mapsto> (0, 0)],
              m_bco_map := [(0, 1)], cout_orphans := [(1, 55)] \<rparr>))) 1
      = [1000, 2000, 3000]
   \<and> m_fee_bco_matching_map initial_state (Sample.fee_id (example_sample 5)) = None
   \<and> match_state initial_state (Sample.fee_id (example_sample 5)) = (0, 0)
   \<and> m_fee_bco_matching_map (snd (find_matching_lvl1_bco example_config [1000, 2000, 3000]
        (example_sample 5) initial_state)) 1 = Some (0, 0)
   \<and> Sample.lvl1_bco (fst (find_matching_lvl1_bco example_config [1000, 2000, 3000]
        (example_sample 5) initial_state)) = 0"
proof -
  let ?st = "initial_state\<lparr> m_fee_bco_matching_map := [1 \<mapsto> (0, 0)],
        m_bco_map := [(0, 1)], cout_orphans := [(1, 55)] \<rparr>"
  have h1: "match_state ?st (Sample.fee_id (example_sample 5)) = (0, 0)"
    by (simp add: match_state_def example_sample_def)
  have h2: "uint (Sample.fee_bco (example_sample 5)) < 10"
    by (simp add: example_sample_def)
  have h3: "m_fee_bco_matching_map initial_state (Sample.fee_id (example_sample 5)) = None"
    by (simp add: initial_state_def)
  have h4: "match_state initial_state (Sample.fee_id (example_sample 5)) = (0, 0)"
    by (simp add: match_state_def subscript_ref_def initial_state_def)
  have q: "candidate_queue [1000, 2000, 3000] ?st 1 = [1000, 2000, 3000]"
    by (simp add: candidate_queue_def subscript_ref_def initial_state_def)
  have s: "Sample.fee_id (example_sample 5) = 1" by (simp add: example_sample_def)
  show ?thesis
    using h1 h2 h3 h4 q
      default_cache_match[OF h1 h2, of example_config "[1000, 2000, 3000]"]
      default_cache_match[OF h4 h2, of example_config "[1000, 2000, 3000]"]
    unfolding s by simp
qed


section \<open>The waveform loop\<close>

text \<open>
  The matching changes the four components of the state that belong to it and, of
  the running sample, the two lvl1 bco fields.
\<close>

lemma find_frame:
  "\<exists>a b c d. snd (find_matching_lvl1_bco cfg main smp st) =
     st\<lparr> m_fee_bco_matching_map := a, bco_list_map := b, orphans := c, cout_orphans := d \<rparr>"
proof (cases rule: find_cases[where st=st and smp=smp and main=main])
  case reuse
  have "st\<lparr> m_fee_bco_matching_map := a \<rparr> =
        st\<lparr> m_fee_bco_matching_map := a, bco_list_map := bco_list_map st,
            orphans := orphans st, cout_orphans := cout_orphans st \<rparr>" for a
    by simp
  then show ?thesis unfolding find_in_tolerance[OF reuse] snd_conv by blast
next
  case (pop lvl1 rest)
  have "st\<lparr> m_fee_bco_matching_map := a, bco_list_map := b \<rparr> =
        st\<lparr> m_fee_bco_matching_map := a, bco_list_map := b,
            orphans := orphans st, cout_orphans := cout_orphans st \<rparr>" for a b
    by simp
  then show ?thesis unfolding find_pop[OF pop] snd_conv by blast
next
  case orphan
  show ?thesis unfolding find_orphan[OF orphan] snd_conv by blast
qed

lemma find_fst:
  "\<exists>x y. fst (find_matching_lvl1_bco cfg main smp st) =
     smp\<lparr> Sample.lvl1_bco := x, lvl1_bco_masked := y \<rparr>"
proof (cases rule: find_cases[where st=st and smp=smp and main=main])
  case reuse
  show ?thesis unfolding find_in_tolerance[OF reuse] fst_conv by blast
next
  case (pop lvl1 rest)
  show ?thesis unfolding find_pop[OF pop] fst_conv by blast
next
  case orphan
  have "smp = smp\<lparr> Sample.lvl1_bco := Sample.lvl1_bco smp, lvl1_bco_masked := lvl1_bco_masked smp \<rparr>"
    by simp
  then show ?thesis unfolding find_orphan[OF orphan] fst_conv by blast
qed

lemma find_fst_simps [simp]:
  "Sample.fee_id (fst (find_matching_lvl1_bco cfg main smp st)) = Sample.fee_id smp"
  "Sample.channel (fst (find_matching_lvl1_bco cfg main smp st)) = Sample.channel smp"
  "Sample.fee_bco (fst (find_matching_lvl1_bco cfg main smp st)) = Sample.fee_bco smp"
  using find_fst[of cfg main smp st] by auto

lemma find_snd_simps [simp]:
  "m_bco_map (snd (find_matching_lvl1_bco cfg main smp st)) = m_bco_map st"
  "m_container (snd (find_matching_lvl1_bco cfg main smp st)) = m_container st"
  "sample_map (snd (find_matching_lvl1_bco cfg main smp st)) = sample_map st"
  "waveform_map (snd (find_matching_lvl1_bco cfg main smp st)) = waveform_map st"
  "sample_emplaced (snd (find_matching_lvl1_bco cfg main smp st)) = sample_emplaced st"
  "waveform_emplaced (snd (find_matching_lvl1_bco cfg main smp st)) = waveform_emplaced st"
  using find_frame[of cfg main smp st] by auto

text \<open>
  The sample loop emplaces the valid samples of the row in index order and leaves in
  \<open>sample_max\<close> the result of \<open>peak_of\<close> over them.
\<close>

lemma sample_at_simps [simp]:
  "adc (sample_at row smp i) = ADC row i"
  "sample (sample_at row smp i) = of_nat i"
  "Sample.lvl1_bco (sample_at row smp i) = Sample.lvl1_bco smp"
  "Sample.fee_id (sample_at row smp i) = Sample.fee_id smp"
  "Sample.fee_bco (sample_at row smp i) = Sample.fee_bco smp"
  by (simp_all add: sample_at_def)

lemma scan_fold:
  assumes "\<And>i. sample_at row r i = sample_at row smp i"
  shows "snd (fold (scan_step cfg row) ixs (r, m, st)) =
     (peak_of (valid_samples cfg row smp ixs) m,
      st\<lparr> sample_map := emplace_all Sample.lvl1_bco (valid_samples cfg row smp ixs) (sample_map st),
          sample_emplaced := sample_emplaced st @ valid_samples cfg row smp ixs \<rparr>)"
  using assms
proof (induction ixs arbitrary: r m st)
  case Nil
  show ?case by (simp add: peak_of_def valid_samples_def emplace_all_def)
next
  case (Cons i ixs)
  have a: "\<And>j. sample_at row (sample_at row smp i) j = sample_at row smp j"
    by (simp add: sample_at_def)
  have b: "r\<lparr> sample := of_nat i, adc := ADC row i \<rparr> = sample_at row smp i"
    using Cons.prems[of i] by (simp add: sample_at_def)
  have c: "Sample.lvl1_bco r = Sample.lvl1_bco smp"
    using arg_cong[OF b, of Sample.lvl1_bco] by simp
  show ?case
  proof (cases "ADC row i = m_adc_invalid cfg")
    case True
    then show ?thesis using Cons.IH[OF Cons.prems] by (simp add: scan_step_def valid_samples_def)
  next
    case False
    then show ?thesis using Cons.IH[of "sample_at row smp i", OF a]
      by (simp add: scan_step_def valid_samples_def Let_def b c peak_of_def emplace_all_def)
  qed
qed

lemma scan_samples_eq:
  "snd (scan_samples cfg row smp st) =
     (peak_of (valid_samples cfg row smp [0 ..< scanned row]) Sample_default,
      st\<lparr> sample_map := emplace_all Sample.lvl1_bco (valid_samples cfg row smp [0 ..< scanned row]) (sample_map st),
          sample_emplaced := sample_emplaced st @ valid_samples cfg row smp [0 ..< scanned row] \<rparr>)"
  unfolding scan_samples_def scanned_def by (rule scan_fold) simp

text \<open>The body of the waveform loop, with the sample loop summarised.\<close>

lemma process_waveform_eq:
  "process_waveform cfg pid main row st =
     (if \<not> accepted cfg row then st
      else
        (let fm = find_matching_lvl1_bco cfg main (matching_input cfg pid row) st;
             news = row_samples cfg pid main row st;
             st3 = (snd fm)\<lparr> m_bco_map := increment (Sample.lvl1_bco (fst fm)) (m_bco_map st),
                      sample_map := emplace_all Sample.lvl1_bco news (sample_map st),
                      sample_emplaced := sample_emplaced st @ news \<rparr>;
             waveform = make_waveform cfg (peak_of news Sample_default)
                 (get_pedestal cfg (FEE row) (CHANNEL row)) (get_rms cfg (FEE row) (CHANNEL row))
         in if EvalWaveform cfg
            then st3\<lparr> waveform_map := emplace (Waveform.lvl1_bco waveform) waveform (waveform_map st),
                       waveform_emplaced := waveform_emplaced st @ [waveform] \<rparr>
            else st3))"
  by (simp add: process_waveform_def accepted_def Let_def split_def scan_samples_eq
      row_samples_def matching_input_def filled_sample_def running_sample_def)

lemma matching_input_simps [simp]:
  "Sample.fee_id (matching_input cfg pid row) = FEE row"
  "Sample.fee_bco (matching_input cfg pid row) = BCO row"
  "Sample.lvl1_bco (matching_input cfg pid row) = 0"
  by (simp_all add: matching_input_def running_sample_def)

lemma process_waveform_matching:
  "m_fee_bco_matching_map (process_waveform cfg pid main row st) =
     (if accepted cfg row
      then m_fee_bco_matching_map (snd (find_matching_lvl1_bco cfg main (matching_input cfg pid row) st))
      else m_fee_bco_matching_map st)"
  "bco_list_map (process_waveform cfg pid main row st) =
     (if accepted cfg row
      then bco_list_map (snd (find_matching_lvl1_bco cfg main (matching_input cfg pid row) st))
      else bco_list_map st)"
  "orphans (process_waveform cfg pid main row st) =
     (if accepted cfg row
      then orphans (snd (find_matching_lvl1_bco cfg main (matching_input cfg pid row) st))
      else orphans st)"
  "cout_orphans (process_waveform cfg pid main row st) =
     (if accepted cfg row
      then cout_orphans (snd (find_matching_lvl1_bco cfg main (matching_input cfg pid row) st))
      else cout_orphans st)"
  by (simp_all add: process_waveform_eq Let_def)

lemma process_waveform_fields:
  "m_container (process_waveform cfg pid main row st) = m_container st"
  "sample_map (process_waveform cfg pid main row st) =
     (if accepted cfg row
      then emplace_all Sample.lvl1_bco (row_samples cfg pid main row st) (sample_map st)
      else sample_map st)"
  "sample_emplaced (process_waveform cfg pid main row st) =
     (if accepted cfg row then sample_emplaced st @ row_samples cfg pid main row st
      else sample_emplaced st)"
  by (simp_all add: process_waveform_eq Let_def)

text \<open>The effect of one row and of a table of rows on the candidate queue of a FEE.\<close>

lemma queue_find:
  "candidate_queue main (snd (find_matching_lvl1_bco cfg main smp st)) f =
     (if Sample.fee_id smp = f \<and> \<not> in_tolerance st f (Sample.fee_bco smp)
      then drop 1 (candidate_queue main st f) else candidate_queue main st f)"
proof (cases rule: find_cases[where st=st and smp=smp and main=main])
  case reuse
  then show ?thesis unfolding find_in_tolerance[OF reuse]
    by (auto simp add: candidate_queue_def)
next
  case (pop lvl1 rest)
  then show ?thesis unfolding find_pop[OF pop]
    by (auto simp add: candidate_queue_def)
next
  case orphan
  then show ?thesis unfolding find_orphan[OF orphan]
    by (auto simp add: candidate_queue_def)
qed

lemma queue_step:
  "candidate_queue main (process_waveform cfg pid main row st) f =
     (if accepted cfg row \<and> FEE row = f \<and> \<not> in_tolerance st f (BCO row)
      then drop 1 (candidate_queue main st f) else candidate_queue main st f)"
  using queue_find[of main cfg "matching_input cfg pid row" st f]
  by (simp add: candidate_queue_def process_waveform_matching)

lemma queue_run:
  "candidate_queue main (process_waveforms cfg pid main rows st) f =
     drop (consuming_calls cfg pid main f rows st) (candidate_queue main st f)"
proof (induction rows arbitrary: st)
  case Nil
  show ?case by (simp add: process_waveforms_def)
next
  case (Cons row rows)
  show ?case using Cons.IH[of "process_waveform cfg pid main row st"]
    by (simp add: process_waveforms_def queue_step)
qed

section \<open>The multimaps\<close>

lemma set_emplace: "set (emplace k v m) = insert (k, v) (set m)"
  by (induction m) (auto split: if_splits)

lemma set_emplace_all: "set (emplace_all key news m) = set m \<union> (\<lambda>s. (key s, s)) ` set news"
  unfolding emplace_all_def by (induction news arbitrary: m) (auto simp: set_emplace)

lemma length_emplace: "length (emplace k v m) = Suc (length m)"
  by (induction m) auto

lemma length_emplace_all: "length (emplace_all key news m) = length m + length news"
  unfolding emplace_all_def by (induction news arbitrary: m) (auto simp: length_emplace)

lemma keys_emplace: "fst ` set (emplace k v m) = insert k (fst ` set m)"
  by (simp add: set_emplace)

lemma sorted_emplace:
  "sorted (map fst m) \<Longrightarrow> sorted (map fst (emplace k v m))"
proof (induction m)
  case Nil
  show ?case by simp
next
  case (Cons p m)
  obtain k' v' where p: "p = (k', v')" by (cases p)
  show ?case
  proof (cases "k < k'")
    case True
    then show ?thesis using Cons.prems p by auto
  next
    case False
    then have "k' \<le> k" by simp
    then show ?thesis using Cons p False by (auto simp: set_emplace)
  qed
qed

lemma filter_emplace:
  "sorted (map fst m) \<Longrightarrow>
   filter (\<lambda>p. fst p = q) (emplace k v m) =
     (if k = q then filter (\<lambda>p. fst p = q) m @ [(k, v)] else filter (\<lambda>p. fst p = q) m)"
proof (induction m)
  case Nil
  show ?case by simp
next
  case (Cons p m)
  obtain k' v' where p: "p = (k', v')" by (cases p)
  show ?case
  proof (cases "k < k'")
    case True
    have "\<forall>x \<in> set (p # m). k < fst x"
      using Cons.prems True p by auto
    then have "filter (\<lambda>p. fst p = k) (p # m) = []"
      by (auto simp: filter_empty_conv)
    then show ?thesis using True p by auto
  next
    case False
    then show ?thesis using Cons p by auto
  qed
qed

lemma emplace_all_snoc:
  "emplace_all key (xs @ [x]) m = emplace (key x) x (emplace_all key xs m)"
  by (simp add: emplace_all_def)

lemma emplace_all_append:
  "emplace_all key (xs @ ys) m = emplace_all key ys (emplace_all key xs m)"
  by (simp add: emplace_all_def)

lemma sorted_emplace_all: "sorted (map fst (emplace_all key xs []))"
proof (induction xs rule: rev_induct)
  case Nil
  show ?case by (simp add: emplace_all_def)
next
  case (snoc x xs)
  show ?case unfolding emplace_all_snoc by (rule sorted_emplace[OF snoc.IH])
qed

lemma filter_emplace_all:
  "filter (\<lambda>p. fst p = q) (emplace_all key xs []) =
     map (\<lambda>s. (key s, s)) (filter (\<lambda>s. key s = q) xs)"
proof (induction xs rule: rev_induct)
  case Nil
  show ?case by (simp add: emplace_all_def)
next
  case (snoc x xs)
  show ?case
    unfolding emplace_all_snoc filter_emplace[OF sorted_emplace_all] snoc.IH
    by simp
qed

lemma keyed_emplace_all: "p \<in> set (emplace_all key xs []) \<Longrightarrow> fst p = key (snd p)"
  by (auto simp: set_emplace_all)

lemma keys_emplace_all:
  "map key (map snd (emplace_all key xs [])) = map fst (emplace_all key xs [])"
  unfolding map_map by (rule map_cong[OF refl]) (simp add: keyed_emplace_all)

lemma filter_snd_emplace_all:
  "filter (\<lambda>p. key (snd p) = q) (emplace_all key xs [])
     = filter (\<lambda>p. fst p = q) (emplace_all key xs [])"
  by (rule filter_cong[OF refl]) (simp add: keyed_emplace_all)

lemma iterate_emplace_all:
  "sorted (map key (map snd (emplace_all key xs [])))
   \<and> filter (\<lambda>s. key s = q) (map snd (emplace_all key xs [])) = filter (\<lambda>s. key s = q) xs"
proof -
  let ?m = "emplace_all key xs []"
  have "filter (\<lambda>s. key s = q) (map snd ?m) = map snd (filter (\<lambda>p. key (snd p) = q) ?m)"
    by (simp add: filter_map comp_def)
  also have "\<dots> = map snd (filter (\<lambda>p. fst p = q) ?m)"
    unfolding filter_snd_emplace_all ..
  also have "\<dots> = filter (\<lambda>s. key s = q) xs"
    unfolding filter_emplace_all by (simp add: comp_def)
  finally show ?thesis unfolding keys_emplace_all using sorted_emplace_all[of key xs] by simp
qed

section \<open>Peak extraction\<close>

lemma valid_samples_snoc:
  "valid_samples cfg row smp (ixs @ [i]) =
     valid_samples cfg row smp ixs @
     (if ADC row i = m_adc_invalid cfg then [] else [sample_at row smp i])"
  by (simp add: valid_samples_def)

lemma peak_of_append: "peak_of (xs @ ys) m = peak_of ys (peak_of xs m)"
  by (simp add: peak_of_def)

lemma peak_invariant:
  "(peak_of (valid_samples cfg row smp [0 ..< n]) Sample_default = Sample_default
      \<and> (\<forall>j<n. ADC row j \<noteq> m_adc_invalid cfg \<longrightarrow> ADC row j = 0))
   \<or> (\<exists>i. first_maximum cfg row n i \<and> 0 < ADC row i
        \<and> peak_of (valid_samples cfg row smp [0 ..< n]) Sample_default = sample_at row smp i)"
proof (induction n)
  case 0
  show ?case by (simp add: valid_samples_def peak_of_def)
next
  case (Suc n)
  let ?p = "peak_of (valid_samples cfg row smp [0 ..< n]) Sample_default"
  have step: "peak_of (valid_samples cfg row smp [0 ..< Suc n]) Sample_default =
      (if ADC row n \<noteq> m_adc_invalid cfg \<and> adc ?p < ADC row n then sample_at row smp n else ?p)"
    by (simp add: valid_samples_snoc peak_of_append) (simp add: peak_of_def)
  from Suc.IH show ?case
  proof
    assume d: "?p = Sample_default \<and> (\<forall>j<n. ADC row j \<noteq> m_adc_invalid cfg \<longrightarrow> ADC row j = 0)"
    then have z: "adc ?p = 0" by (simp add: Sample_default_def)
    show ?thesis
    proof (cases "ADC row n \<noteq> m_adc_invalid cfg \<and> 0 < ADC row n")
      case True
      then have "first_maximum cfg row (Suc n) n"
        using d by (auto simp: first_maximum_def less_Suc_eq)
      then show ?thesis using True step z by auto
    next
      case False
      then have "\<forall>j<Suc n. ADC row j \<noteq> m_adc_invalid cfg \<longrightarrow> ADC row j = 0"
        using d by (auto simp: less_Suc_eq word_gt_0)
      then show ?thesis using False step z d by auto
    qed
  next
    assume "\<exists>i. first_maximum cfg row n i \<and> 0 < ADC row i \<and> ?p = sample_at row smp i"
    then obtain i where i: "first_maximum cfg row n i" "0 < ADC row i" "?p = sample_at row smp i"
      by blast
    then have a: "adc ?p = ADC row i" by simp
    show ?thesis
    proof (cases "ADC row n \<noteq> m_adc_invalid cfg \<and> ADC row i < ADC row n")
      case True
      then have "first_maximum cfg row (Suc n) n"
        using i(1) by (fastforce simp: first_maximum_def less_Suc_eq)
      moreover have "0 < ADC row n" using True i(2) by (metis order.strict_trans)
      ultimately show ?thesis using True step a by auto
    next
      case False
      then have "first_maximum cfg row (Suc n) i"
        using i(1) by (auto simp: first_maximum_def less_Suc_eq)
      then show ?thesis using False step a i by auto
    qed
  qed
qed

lemma scan_samples_peak:
  "fst (snd (scan_samples cfg row smp st)) =
     peak_of (valid_samples cfg row smp [0 ..< scanned row]) Sample_default"
  by (simp add: scan_samples_eq)

lemma first_maximum_unique:
  "first_maximum cfg row n i \<Longrightarrow> first_maximum cfg row n j \<Longrightarrow> i = j"
  unfolding first_maximum_def
  by (metis linorder_neqE_nat not_less)



lemma scanned_le: "scanned row \<le> 1024"
proof -
  have "min (SAMPLES row) 1024 \<le> (1024 :: u16)" by simp
  then show ?thesis unfolding scanned_def by (simp add: word_le_nat_alt)
qed

lemma upt_0_4: "[0 ..< 4 :: nat] = [0, 1, 2, 3]"
  by code_simp

text \<open>
  C5 (amended). The sample loop scans at most 1024 entries. When some scanned
  non-sentinel entry has an ADC value above 0, \<open>sample_max\<close> is the Sample of the
  first maximum: the running sample with the index and ADC value of the first
  scanned index that attains the maximum over the non-sentinel entries (strict
  \<open>greater\<close> comparison). When every scanned entry is the sentinel or 0, \<open>sample_max\<close>
  is the zero-initialized Sample. For the ADC sequence [5, 10, 7, 10], none of whose
  values is the sentinel, the peak has sample index 1 and ADC 10.
\<close>

theorem peak_extraction:
  "scanned row \<le> 1024
   \<and> ((\<exists>i < scanned row. ADC row i \<noteq> m_adc_invalid cfg \<and> 0 < ADC row i) \<longrightarrow>
        (\<exists>i. first_maximum cfg row (scanned row) i
           \<and> fst (snd (scan_samples cfg row smp st)) = sample_at row smp i))
   \<and> ((\<forall>i < scanned row. ADC row i = m_adc_invalid cfg \<or> ADC row i = 0) \<longrightarrow>
        fst (snd (scan_samples cfg row smp st)) = Sample_default)
   \<and> (m_adc_invalid cfg \<notin> {5, 10, 7} \<longrightarrow>
        sample (fst (snd (scan_samples cfg (adc_row [5, 10, 7, 10]) smp st))) = 1
        \<and> adc (fst (snd (scan_samples cfg (adc_row [5, 10, 7, 10]) smp st))) = 10)"
proof -
  note inv = peak_invariant[of cfg row smp "scanned row"]
  have a: "(\<exists>i < scanned row. ADC row i \<noteq> m_adc_invalid cfg \<and> 0 < ADC row i) \<longrightarrow>
        (\<exists>i. first_maximum cfg row (scanned row) i
           \<and> fst (snd (scan_samples cfg row smp st)) = sample_at row smp i)"
    using inv unfolding scan_samples_peak by (metis less_irrefl)
  have b: "(\<forall>i < scanned row. ADC row i = m_adc_invalid cfg \<or> ADC row i = 0) \<longrightarrow>
        fst (snd (scan_samples cfg row smp st)) = Sample_default"
    using inv unfolding scan_samples_peak first_maximum_def by (metis word_gt_0)
  have c: "m_adc_invalid cfg \<notin> {5, 10, 7} \<longrightarrow>
        sample (fst (snd (scan_samples cfg (adc_row [5, 10, 7, 10]) smp st))) = 1
        \<and> adc (fst (snd (scan_samples cfg (adc_row [5, 10, 7, 10]) smp st))) = 10"
    by (simp add: scan_samples_peak scanned_def adc_row_def valid_samples_def peak_of_def
        sample_at_def Sample_default_def upt_0_4)
  show ?thesis using scanned_le a b c by blast
qed


lemma all_less_2: "(\<forall>j<(2::nat). P j) \<longleftrightarrow> P 0 \<and> P 1"
  by (auto simp: less_2_cases_iff)

lemma all_less_4: "(\<forall>j<(4::nat). P j) \<longleftrightarrow> P 0 \<and> P 1 \<and> P 2 \<and> P 3"
proof -
  have "j < 4 \<longleftrightarrow> j = 0 \<or> j = 1 \<or> j = 2 \<or> j = 3" for j :: nat by arith
  then show ?thesis by auto
qed

theorem peak_extraction_witness:
  "(1 :: nat) < scanned (adc_row [5, 10, 7, 10])
   \<and> ADC (adc_row [5, 10, 7, 10]) 1 \<noteq> m_adc_invalid example_config
   \<and> 0 < ADC (adc_row [5, 10, 7, 10]) 1
   \<and> first_maximum example_config (adc_row [5, 10, 7, 10]) (scanned (adc_row [5, 10, 7, 10])) 1
   \<and> fst (snd (scan_samples example_config (adc_row [5, 10, 7, 10]) (example_sample 55) initial_state))
       = sample_at (adc_row [5, 10, 7, 10]) (example_sample 55) 1
   \<and> fst (snd (scan_samples example_config (adc_row [65000, 65000]) (example_sample 55) initial_state))
       = Sample_default"
proof -
  let ?row = "adc_row [5, 10, 7, 10]"
  let ?bad = "adc_row [65000, 65000]"
  have n: "scanned ?row = 4" by (simp add: scanned_def adc_row_def)
  have h: "(1 :: nat) < scanned ?row \<and> ADC ?row 1 \<noteq> m_adc_invalid example_config \<and> 0 < ADC ?row 1"
    by (simp add: n) (simp add: adc_row_def example_config_def)
  have fm: "first_maximum example_config ?row (scanned ?row) 1"
    unfolding n first_maximum_def all_less_4
    by (simp add: adc_row_def example_config_def)
  have n2: "scanned ?bad = 2" by (simp add: scanned_def adc_row_def)
  have h2: "\<forall>i < scanned ?bad. ADC ?bad i = m_adc_invalid example_config \<or> ADC ?bad i = 0"
    unfolding n2 all_less_2 by (simp add: adc_row_def example_config_def)
  from h peak_extraction[of ?row example_config "example_sample 55" initial_state]
  obtain i where i: "first_maximum example_config ?row (scanned ?row) i"
    "fst (snd (scan_samples example_config ?row (example_sample 55) initial_state)) = sample_at ?row (example_sample 55) i"
    by blast
  have "i = 1" using first_maximum_unique[OF i(1) fm] .
  then show ?thesis
    using h fm i(2) h2 peak_extraction[of ?bad example_config "example_sample 55" initial_state]
    by blast
qed

text \<open>
  C5 as stated fails when the maximum over the non-sentinel entries is 0: for the
  entries [65000, 0] with sentinel 65000 the first maximum is index 1, yet
  \<open>sample_max\<close> is the zero-initialized Sample (index 0, and FEE 0 instead of the
  row's FEE), not the Sample of index 1.
\<close>

theorem peak_extraction_counterexample:
  "first_maximum example_config (adc_row [65000, 0]) (scanned (adc_row [65000, 0])) 1
   \<and> fst (snd (scan_samples example_config (adc_row [65000, 0]) (example_sample 55) initial_state))
       = Sample_default
   \<and> sample (fst (snd (scan_samples example_config (adc_row [65000, 0]) (example_sample 55) initial_state))) = 0
   \<and> sample (sample_at (adc_row [65000, 0]) (example_sample 55) 1) = 1"
proof -
  let ?row = "adc_row [65000, 0]"
  have n: "scanned ?row = 2" by (simp add: scanned_def adc_row_def)
  have fm: "first_maximum example_config ?row (scanned ?row) 1"
    unfolding n first_maximum_def all_less_2
    by (simp add: adc_row_def example_config_def)
  have u: "[0 ..< 2 :: nat] = [0, 1]" by code_simp
  have p: "fst (snd (scan_samples example_config ?row (example_sample 55) initial_state)) = Sample_default"
    unfolding scan_samples_peak n u
    by (simp add: valid_samples_def peak_of_def adc_row_def example_config_def)
  show ?thesis using fm p by (simp add: Sample_default_def)
qed

section \<open>Signal classification\<close>

text \<open>
  C6. The \<open>is_signal\<close> flag of the waveform built from \<open>sample_max\<close> is true exactly
  when \<open>rms > 0\<close>, \<open>adc_max >= m_min_adc\<close>, \<open>m_sample_min <= sample_max < m_sample_max\<close>
  and \<open>adc_max > pedestal + m_n_sigma * rms\<close> (strict), the sum and the product
  being those of double arithmetic (\<open>fl\<close>); this is the waveform that a row passing
  the bound check emplaces when waveforms are requested. With pedestal 10, rms 2,
  n_sigma 3, min_adc 0, sample_min 0, sample_max 1024 (and 6 and 16 representable),
  a peak of ADC 15 is no signal and a peak of ADC 17 is one.
\<close>

theorem signal_classification:
  "(is_signal (make_waveform cfg smp_max ped r) \<longleftrightarrow>
      r > 0
      \<and> real_of_int (uint (adc smp_max)) \<ge> m_min_adc cfg
      \<and> m_sample_min cfg \<le> uint (sample smp_max)
      \<and> uint (sample smp_max) < m_sample_max cfg
      \<and> real_of_int (uint (adc smp_max)) > fl cfg (ped + fl cfg (m_n_sigma cfg * r)))
   \<and> adc_max (make_waveform cfg smp_max ped r) = adc smp_max
   \<and> sample_max (make_waveform cfg smp_max ped r) = sample smp_max
   \<and> (accepted cfg row \<and> EvalWaveform cfg \<longrightarrow>
        waveform_emplaced (process_waveform cfg pid main row st) =
          waveform_emplaced st @
          [make_waveform cfg (peak_of (row_samples cfg pid main row st) Sample_default)
             (get_pedestal cfg (FEE row) (CHANNEL row)) (get_rms cfg (FEE row) (CHANNEL row))])
   \<and> (m_min_adc cfg = 0 \<and> m_sample_min cfg = 0 \<and> m_sample_max cfg = 1024
        \<and> m_n_sigma cfg = 3 \<and> fl cfg 6 = 6 \<and> fl cfg 16 = 16
        \<and> uint (sample smp_max) < 1024 \<longrightarrow>
        (adc smp_max = 15 \<longrightarrow> \<not> is_signal (make_waveform cfg smp_max 10 2))
        \<and> (adc smp_max = 17 \<longrightarrow> is_signal (make_waveform cfg smp_max 10 2)))"
proof -
  have a: "is_signal (make_waveform cfg smp_max ped r) \<longleftrightarrow>
      r > 0
      \<and> real_of_int (uint (adc smp_max)) \<ge> m_min_adc cfg
      \<and> m_sample_min cfg \<le> uint (sample smp_max)
      \<and> uint (sample smp_max) < m_sample_max cfg
      \<and> real_of_int (uint (adc smp_max)) > fl cfg (ped + fl cfg (m_n_sigma cfg * r))" for ped r
    by (simp add: make_waveform_def copy_from_def Let_def)
  have b: "adc_max (make_waveform cfg smp_max ped r) = adc smp_max
      \<and> sample_max (make_waveform cfg smp_max ped r) = sample smp_max"
    by (simp add: make_waveform_def copy_from_def Let_def)
  have c: "accepted cfg row \<and> EvalWaveform cfg \<longrightarrow>
        waveform_emplaced (process_waveform cfg pid main row st) =
          waveform_emplaced st @
          [make_waveform cfg (peak_of (row_samples cfg pid main row st) Sample_default)
             (get_pedestal cfg (FEE row) (CHANNEL row)) (get_rms cfg (FEE row) (CHANNEL row))]"
    by (simp add: process_waveform_eq Let_def)
  have d: "m_min_adc cfg = 0 \<and> m_sample_min cfg = 0 \<and> m_sample_max cfg = 1024
        \<and> m_n_sigma cfg = 3 \<and> fl cfg 6 = 6 \<and> fl cfg 16 = 16
        \<and> uint (sample smp_max) < 1024 \<longrightarrow>
        (adc smp_max = 15 \<longrightarrow> \<not> is_signal (make_waveform cfg smp_max 10 2))
        \<and> (adc smp_max = 17 \<longrightarrow> is_signal (make_waveform cfg smp_max 10 2))"
    unfolding a by simp
  show ?thesis using a b c d by blast
qed

theorem signal_classification_witness:
  "m_min_adc example_config = 0 \<and> m_sample_min example_config = 0
   \<and> m_sample_max example_config = 1024 \<and> m_n_sigma example_config = 3
   \<and> fl example_config 6 = 6 \<and> fl example_config 16 = 16
   \<and> uint (sample (Sample_default\<lparr> sample := 3, adc := 17 \<rparr>)) < 1024
   \<and> adc (Sample_default\<lparr> sample := 3, adc := 17 \<rparr>) = 17
   \<and> is_signal (make_waveform example_config (Sample_default\<lparr> sample := 3, adc := 17 \<rparr>) 10 2)"
proof -
  have h: "m_min_adc example_config = 0 \<and> m_sample_min example_config = 0
   \<and> m_sample_max example_config = 1024 \<and> m_n_sigma example_config = 3
   \<and> fl example_config 6 = 6 \<and> fl example_config 16 = 16
   \<and> uint (sample (Sample_default\<lparr> sample := 3, adc := 17 \<rparr>)) < 1024"
    by (simp add: example_config_def)
  have e: "adc (Sample_default\<lparr> sample := 3, adc := 17 \<rparr>) = 17" by simp
  show ?thesis
    using h e signal_classification[of example_config "Sample_default\<lparr> sample := 3, adc := 17 \<rparr>"]
    by blast
qed

section \<open>One event\<close>

text \<open>
  The tagger loop changes the tagger list of the container and nothing else of the
  state.
\<close>

lemma process_tagger_frame:
  "\<exists>tg1 l1. process_tagger cfg pid row (st, l) =
     (st\<lparr> m_container := (m_container st)\<lparr> taggers := tg1 \<rparr> \<rparr>, l1)"
proof (cases "EvalTagger cfg")
  case True
  then show ?thesis by (simp add: process_tagger_def Let_def) (rule exI, rule refl)
next
  case False
  have "process_tagger cfg pid row (st, l) =
      (st\<lparr> m_container := (m_container st)\<lparr> taggers := taggers (m_container st) \<rparr> \<rparr>,
       snd (process_tagger cfg pid row (st, l)))"
    using False by (simp add: process_tagger_def Let_def)
  then show ?thesis by blast
qed

lemma tagger_fold:
  "\<exists>tg l'. fold (process_tagger cfg pid) rows (st, l) =
     (st\<lparr> m_container := (m_container st)\<lparr> taggers := tg \<rparr> \<rparr>, l')"
proof (induction rows arbitrary: st l)
  case Nil
  have "fold (process_tagger cfg pid) [] (st, l) =
      (st\<lparr> m_container := (m_container st)\<lparr> taggers := taggers (m_container st) \<rparr> \<rparr>, l)"
    by simp
  then show ?case by blast
next
  case (Cons row rows)
  obtain tg1 l1 where s: "process_tagger cfg pid row (st, l) =
      (st\<lparr> m_container := (m_container st)\<lparr> taggers := tg1 \<rparr> \<rparr>, l1)"
    using process_tagger_frame by blast
  from Cons.IH[of "st\<lparr> m_container := (m_container st)\<lparr> taggers := tg1 \<rparr> \<rparr>" l1]
  obtain tg l' where "fold (process_tagger cfg pid) rows
      (st\<lparr> m_container := (m_container st)\<lparr> taggers := tg1 \<rparr> \<rparr>, l1) =
      (st\<lparr> m_container := (m_container st)\<lparr> taggers := tg \<rparr> \<rparr>, l')"
    by auto
  then show ?case using s by simp (rule exI, rule refl)
qed

lemma maps_inv_waveform: "maps_inv st \<Longrightarrow> maps_inv (process_waveform cfg pid main row st)"
  by (simp add: maps_inv_def process_waveform_eq Let_def emplace_all_append)
     (simp add: emplace_all_def)

lemma maps_inv_waveforms: "maps_inv st \<Longrightarrow> maps_inv (process_waveforms cfg pid main rows st)"
  unfolding process_waveforms_def
  by (induction rows arbitrary: st) (simp_all add: maps_inv_waveform)

lemma maps_inv_packet: "maps_inv st \<Longrightarrow> maps_inv (process_packet cfg event pid st)"
proof (cases "getPacket event pid")
  case None
  then show "maps_inv st \<Longrightarrow> ?thesis" by (simp add: process_packet_def)
next
  case (Some packet)
  assume inv: "maps_inv st"
  obtain tg l' where f: "fold (process_tagger cfg pid) (tagger_table packet) (st, []) =
      (st\<lparr> m_container := (m_container st)\<lparr> taggers := tg \<rparr> \<rparr>, l')"
    using tagger_fold by blast
  have a: "maps_inv (st\<lparr> m_container := (m_container st)\<lparr> taggers := tg \<rparr> \<rparr>)"
    using inv by (simp add: maps_inv_def)
  then have b: "maps_inv (st\<lparr> m_container := (m_container st)\<lparr> taggers := tg \<rparr>,
      bco_list_map := Map.empty, orphans := {} \<rparr>)"
    by (simp add: maps_inv_def)
  show ?thesis
    using a maps_inv_waveforms[OF b] by (simp add: process_packet_def Some f)
qed

lemma maps_inv_packets: "maps_inv st \<Longrightarrow> maps_inv (fold (process_packet cfg event) pids st)"
  by (induction pids arbitrary: st) (simp_all add: maps_inv_packet)

text \<open>
  C7. After an event that is processed (event type below 8), the sample list and the
  waveform list of the container are sorted by \<open>lvl1_bco\<close> in ascending order, and
  for every key \<open>k\<close> the records of \<open>lvl1_bco = k\<close> stand in the list in the order
  in which they were emplaced during the event. A list that is not requested is
  empty.
\<close>

theorem aggregation_order:
  assumes "getEvtType event < 8"
  shows "fst (process_event cfg event st) = EVENT_OK
    \<and> sorted (map Sample.lvl1_bco (samples (m_container (snd (process_event cfg event st)))))
    \<and> sorted (map Waveform.lvl1_bco (waveforms (m_container (snd (process_event cfg event st)))))
    \<and> (EvalSample cfg \<longrightarrow>
         filter (\<lambda>s. Sample.lvl1_bco s = k) (samples (m_container (snd (process_event cfg event st))))
         = filter (\<lambda>s. Sample.lvl1_bco s = k) (sample_emplaced (snd (process_event cfg event st))))
    \<and> (EvalWaveform cfg \<longrightarrow>
         filter (\<lambda>w. Waveform.lvl1_bco w = k) (waveforms (m_container (snd (process_event cfg event st))))
         = filter (\<lambda>w. Waveform.lvl1_bco w = k) (waveform_emplaced (snd (process_event cfg event st))))
    \<and> (\<not> EvalSample cfg \<longrightarrow> samples (m_container (snd (process_event cfg event st))) = [])
    \<and> (\<not> EvalWaveform cfg \<longrightarrow> waveforms (m_container (snd (process_event cfg event st))) = [])"
proof -
  let ?st0 = "st\<lparr> m_container := Reset (m_container st), sample_map := [], waveform_map := [],
      sample_emplaced := [], waveform_emplaced := [] \<rparr>"
  let ?st1 = "fold (process_packet cfg event) (m_packet_ids cfg) ?st0"
  have "maps_inv ?st0" by (simp add: maps_inv_def Reset_def emplace_all_def)
  then have inv: "maps_inv ?st1" by (rule maps_inv_packets)
  have s: "samples (m_container (snd (process_event cfg event st))) =
      (if EvalSample cfg then map snd (emplace_all Sample.lvl1_bco (sample_emplaced ?st1) []) else [])"
    using assms inv by (simp add: process_event_def Let_def maps_inv_def)
  have w: "waveforms (m_container (snd (process_event cfg event st))) =
      (if EvalWaveform cfg then map snd (emplace_all Waveform.lvl1_bco (waveform_emplaced ?st1) []) else [])"
    using assms inv by (simp add: process_event_def Let_def maps_inv_def)
  have se: "sample_emplaced (snd (process_event cfg event st)) = sample_emplaced ?st1"
    using assms by (simp add: process_event_def Let_def)
  have we: "waveform_emplaced (snd (process_event cfg event st)) = waveform_emplaced ?st1"
    using assms by (simp add: process_event_def Let_def)
  have r: "fst (process_event cfg event st) = EVENT_OK"
    using assms by (simp add: process_event_def Let_def)
  show ?thesis
    unfolding s w se we
    using r iterate_emplace_all[of Sample.lvl1_bco "sample_emplaced ?st1" k]
      iterate_emplace_all[of Waveform.lvl1_bco "waveform_emplaced ?st1" k]
    by simp
qed

text \<open>
  The example event: the first row takes 1000, the second 2000, and the third, out
  of tolerance with the queue exhausted, is an orphan with lvl1 bco 0. Its two
  samples are emplaced last and stand first in the container.
\<close>

lemma upt_0_2: "[0 ..< 2 :: nat] = [0, 1]"
  by code_simp

lemma example_event_samples:
  "map Sample.lvl1_bco
     (sample_emplaced (snd (process_event example_config example_event initial_state)))
     = [1000, 1000, 2000, 2000, 0, 0]
   \<and> map Sample.lvl1_bco
     (samples (m_container (snd (process_event example_config example_event initial_state))))
     = [0, 0, 1000, 1000, 2000, 2000]
   \<and> map adc
     (samples (m_container (snd (process_event example_config example_event initial_state))))
     = [5, 10, 5, 10, 5, 10]"
  by (simp add: process_event_def process_packet_def example_event_def process_tagger_def
      example_tagger_def process_waveforms_def Let_def process_waveform_fields
      process_waveform_matching accepted_def row_samples_def scanned_def upt_0_2
      valid_samples_def find_matching_lvl1_bco_def matching_input_def running_sample_def
      filled_sample_def subscript_ref_def subscript_map_def get_bco_diff_def
      max_fee_bco_diff_def set_insert_def sample_at_def emplace_all_def Sample_default_def
      initial_state_def Reset_def example_config_def example_row_def)

theorem aggregation_order_witness:
  "getEvtType example_event < 8
   \<and> map Sample.lvl1_bco
        (sample_emplaced (snd (process_event example_config example_event initial_state)))
      = [1000, 1000, 2000, 2000, 0, 0]
   \<and> map Sample.lvl1_bco
        (samples (m_container (snd (process_event example_config example_event initial_state))))
      = [0, 0, 1000, 1000, 2000, 2000]
   \<and> map adc
        (samples (m_container (snd (process_event example_config example_event initial_state))))
      = [5, 10, 5, 10, 5, 10]
   \<and> sorted (map Sample.lvl1_bco
        (samples (m_container (snd (process_event example_config example_event initial_state)))))
   \<and> filter (\<lambda>s. Sample.lvl1_bco s = 1000)
        (samples (m_container (snd (process_event example_config example_event initial_state))))
      = filter (\<lambda>s. Sample.lvl1_bco s = 1000)
        (sample_emplaced (snd (process_event example_config example_event initial_state)))"
proof -
  have h: "getEvtType example_event < 8" by (simp add: example_event_def)
  have e: "EvalSample example_config" by (simp add: example_config_def)
  show ?thesis
    using h e example_event_samples
      aggregation_order[OF h, of example_config initial_state 1000]
    by blast
qed

section \<open>The packets of an event\<close>

text \<open>
  The tagger loop in closed form, and a present packet as its waveform loop run from
  \<open>loop_start\<close>.
\<close>

lemma tagger_fold_eq:
  "fold (process_tagger cfg pid) rows (st, l) =
     (st\<lparr> m_container := (m_container st)
            \<lparr> taggers := taggers (m_container st) @ tagger_infos cfg pid rows \<rparr> \<rparr>,
      l @ lvl1_bcos cfg rows)"
proof (induction rows arbitrary: st l)
  case Nil
  show ?case by (simp add: tagger_infos_def lvl1_bcos_def)
next
  case (Cons row rows)
  show ?case
    unfolding fold_simps
    by (simp add: process_tagger_def Let_def Cons.IH tagger_infos_def lvl1_bcos_def)
qed

lemma main_bco_list_of_eq:
  "main_bco_list_of cfg pid packet st = lvl1_bcos cfg (tagger_table packet)"
  by (simp add: main_bco_list_of_def tagger_fold_eq)

lemma loop_start_eq:
  "loop_start cfg pid packet st =
     st\<lparr> m_container := (m_container st)
            \<lparr> taggers := taggers (m_container st) @ tagger_infos cfg pid (tagger_table packet) \<rparr>,
         bco_list_map := Map.empty, orphans := {} \<rparr>"
  by (simp add: loop_start_def tagger_fold_eq)

lemma process_packet_present:
  assumes "getPacket event pid = Some packet" and "EvalSample cfg \<or> EvalWaveform cfg"
  shows "process_packet cfg event pid st =
     process_waveforms cfg pid (main_bco_list_of cfg pid packet st) (waveform_table packet)
       (loop_start cfg pid packet st)"
  using assms
  by (simp add: process_packet_def main_bco_list_of_def loop_start_def split_def Let_def)

lemma process_waveforms_append:
  "process_waveforms cfg pid main (a @ b) st =
     process_waveforms cfg pid main b (process_waveforms cfg pid main a st)"
  by (simp add: process_waveforms_def)

lemma process_waveforms_Cons:
  "process_waveforms cfg pid main (row # rows) st =
     process_waveforms cfg pid main rows (process_waveform cfg pid main row st)"
  by (simp add: process_waveforms_def)

lemma process_event_eq:
  "getEvtType event < 8 \<Longrightarrow>
   process_event cfg event st =
     (let st1 = fold (process_packet cfg event) (m_packet_ids cfg) (event_start st);
          st2 = (if EvalSample cfg
                 then st1\<lparr> m_container := (m_container st1)\<lparr> samples :=
                        samples (m_container st1) @ map snd (sample_map st1) \<rparr> \<rparr>
                 else st1);
          st3 = (if EvalWaveform cfg
                 then st2\<lparr> m_container := (m_container st2)\<lparr> waveforms :=
                        waveforms (m_container st2) @ map snd (waveform_map st2) \<rparr> \<rparr>
                 else st2)
      in (EVENT_OK, st3))"
  by (simp add: process_event_def event_start_def)

lemma emplaced_waveforms:
  "\<exists>suf. sample_emplaced (process_waveforms cfg pid main rows st) = sample_emplaced st @ suf"
proof (induction rows arbitrary: st)
  case Nil
  show ?case by (simp add: process_waveforms_def)
next
  case (Cons row rows)
  obtain suf where "sample_emplaced (process_waveforms cfg pid main rows
      (process_waveform cfg pid main row st))
      = sample_emplaced (process_waveform cfg pid main row st) @ suf"
    using Cons.IH by blast
  then show ?case
    by (simp add: process_waveforms_Cons process_waveform_fields)
qed

lemma emplaced_packet:
  "\<exists>suf. sample_emplaced (process_packet cfg event pid st) = sample_emplaced st @ suf"
proof (cases "getPacket event pid")
  case None
  then show ?thesis by (simp add: process_packet_def)
next
  case (Some packet)
  show ?thesis
  proof (cases "EvalSample cfg \<or> EvalWaveform cfg")
    case True
    show ?thesis
      unfolding process_packet_present[OF Some True]
      using emplaced_waveforms[of cfg pid "main_bco_list_of cfg pid packet st"
          "waveform_table packet" "loop_start cfg pid packet st"]
      by (simp add: loop_start_eq)
  next
    case False
    then show ?thesis by (simp add: process_packet_def Some tagger_fold_eq)
  qed
qed

lemma emplaced_packets:
  "\<exists>suf. sample_emplaced (fold (process_packet cfg event) pids st) = sample_emplaced st @ suf"
proof (induction pids arbitrary: st)
  case Nil
  show ?case by simp
next
  case (Cons pid pids)
  obtain s1 where s1: "sample_emplaced (process_packet cfg event pid st) = sample_emplaced st @ s1"
    using emplaced_packet by blast
  obtain s2 where "sample_emplaced (fold (process_packet cfg event) pids
      (process_packet cfg event pid st)) = sample_emplaced (process_packet cfg event pid st) @ s2"
    using Cons.IH by blast
  then show ?case using s1 by simp
qed

lemma event_samples_filter:
  assumes "getEvtType event < 8" and "EvalSample cfg"
  shows "filter (\<lambda>s. Sample.lvl1_bco s = k)
           (samples (m_container (snd (process_event cfg event st))))
         = filter (\<lambda>s. Sample.lvl1_bco s = k)
           (sample_emplaced (fold (process_packet cfg event) (m_packet_ids cfg) (event_start st)))"
proof -
  let ?st1 = "fold (process_packet cfg event) (m_packet_ids cfg) (event_start st)"
  have "maps_inv (event_start st)"
    by (simp add: maps_inv_def event_start_def Reset_def emplace_all_def)
  then have inv: "maps_inv ?st1" by (rule maps_inv_packets)
  have "samples (m_container (snd (process_event cfg event st))) =
      map snd (emplace_all Sample.lvl1_bco (sample_emplaced ?st1) [])"
    using assms inv by (simp add: process_event_eq Let_def maps_inv_def)
  then show ?thesis
    using iterate_emplace_all[of Sample.lvl1_bco "sample_emplaced ?st1" k] by simp
qed


lemma process_packet_eval:
  "process_packet cfg event pid st =
     (case getPacket event pid of
        None \<Rightarrow> st
      | Some packet \<Rightarrow>
          if EvalSample cfg \<or> EvalWaveform cfg
          then process_waveforms cfg pid (lvl1_bcos cfg (tagger_table packet))
                 (waveform_table packet)
                 (st\<lparr> m_container := (m_container st)
                        \<lparr> taggers := taggers (m_container st)
                             @ tagger_infos cfg pid (tagger_table packet) \<rparr>,
                     bco_list_map := Map.empty, orphans := {} \<rparr>)
          else st\<lparr> m_container := (m_container st)
                        \<lparr> taggers := taggers (m_container st)
                             @ tagger_infos cfg pid (tagger_table packet) \<rparr> \<rparr>)"
  by (simp add: process_packet_def tagger_fold_eq split: option.splits)

lemma queue_loop_start: "candidate_queue main (loop_start cfg pid packet st) f = main"
  by (simp add: candidate_queue_def loop_start_eq subscript_ref_def)

lemmas loop_eval_defs =
  process_waveforms_def process_waveform_matching accepted_def match_state_def
  candidate_queue_def find_matching_lvl1_bco_def Let_def matching_input_def
  running_sample_def subscript_ref_def subscript_map_def get_bco_diff_def
  max_fee_bco_diff_def set_insert_def in_tolerance_def

lemma example_event_packet: "getPacket example_event 5001 = Some example_packet"
  by (simp add: example_event_def example_packet_def)

lemma example_main: "main_bco_list_of example_config 5001 example_packet sp = [1000, 2000]"
  by (simp add: main_bco_list_of_eq lvl1_bcos_def example_packet_def example_tagger_def
      example_config_def)

lemma third_row_orphan:
  "accepted example_config (example_row 56)
   \<and> \<not> in_tolerance third_row_state (FEE (example_row 56)) (BCO (example_row 56))
   \<and> candidate_queue [1000, 2000] third_row_state (FEE (example_row 56)) = []
   \<and> match_state third_row_state 1 = (200, 2000)"
  by (simp add: third_row_state_def loop_start_eq event_start_def loop_eval_defs
      initial_state_def example_row_def Sample_default_def example_config_def)

text \<open>
  C3 (amended). The candidate queue of a FEE lives for the waveform loop of one
  packet: \<open>bco_list_map\<close> is created empty for every packet, so the queue of every FEE
  starts as that packet's \<open>main_bco_list\<close>. Within that loop, a row removes the front
  entry of the queue of FEE \<open>f\<close> when it reaches the matching for \<open>f\<close> out of
  tolerance, and leaves the queue as it is otherwise: at most one entry goes, from
  the front, and the length never grows. After a table of rows of which
  \<open>N = consuming_calls ...\<close> were out of tolerance for \<open>f\<close>, the queue is the initial
  one without its first N entries, so its length is
  \<open>initial_length - min N initial_length\<close>; for a whole packet the initial queue is
  the packet's \<open>main_bco_list\<close>.
\<close>

theorem queue_consumption:
  "candidate_queue main (process_waveform cfg pid main row st) f =
     (if accepted cfg row \<and> FEE row = f \<and> \<not> in_tolerance st f (BCO row)
      then drop 1 (candidate_queue main st f) else candidate_queue main st f)
   \<and> length (candidate_queue main (process_waveform cfg pid main row st) f)
       \<le> length (candidate_queue main st f)
   \<and> candidate_queue main (process_waveforms cfg pid main rows st) f =
       drop (consuming_calls cfg pid main f rows st) (candidate_queue main st f)
   \<and> length (candidate_queue main (process_waveforms cfg pid main rows st) f) =
       length (candidate_queue main st f)
         - min (consuming_calls cfg pid main f rows st) (length (candidate_queue main st f))
   \<and> length (candidate_queue main (process_waveforms cfg pid main rows st) f)
       \<le> length (candidate_queue main st f)
   \<and> (getPacket event pid = Some packet \<and> (EvalSample cfg \<or> EvalWaveform cfg) \<longrightarrow>
        candidate_queue (main_bco_list_of cfg pid packet sp) (loop_start cfg pid packet sp) f
          = main_bco_list_of cfg pid packet sp
        \<and> candidate_queue (main_bco_list_of cfg pid packet sp)
            (process_packet cfg event pid sp) f
          = drop (consuming_calls cfg pid (main_bco_list_of cfg pid packet sp) f
                    (waveform_table packet) (loop_start cfg pid packet sp))
              (main_bco_list_of cfg pid packet sp))"
proof -
  have one: "length (candidate_queue main (process_waveform cfg pid main row st) f)
       \<le> length (candidate_queue main st f)"
    by (simp add: queue_step)
  have len: "length (candidate_queue main (process_waveforms cfg pid main rows st) f) =
       length (candidate_queue main st f)
         - min (consuming_calls cfg pid main f rows st) (length (candidate_queue main st f))"
    unfolding queue_run by (simp add: min_def)
  have mono: "length (candidate_queue main (process_waveforms cfg pid main rows st) f)
       \<le> length (candidate_queue main st f)"
    unfolding queue_run by simp
  have pkt: "getPacket event pid = Some packet \<and> (EvalSample cfg \<or> EvalWaveform cfg) \<longrightarrow>
        candidate_queue (main_bco_list_of cfg pid packet sp) (loop_start cfg pid packet sp) f
          = main_bco_list_of cfg pid packet sp
        \<and> candidate_queue (main_bco_list_of cfg pid packet sp)
            (process_packet cfg event pid sp) f
          = drop (consuming_calls cfg pid (main_bco_list_of cfg pid packet sp) f
                    (waveform_table packet) (loop_start cfg pid packet sp))
              (main_bco_list_of cfg pid packet sp)"
    by (simp add: process_packet_present queue_run queue_loop_start)
  show ?thesis using one len mono queue_step queue_run pkt by blast
qed

theorem queue_consumption_witness:
  "consuming_calls example_config 5001 [1000, 2000, 3000] 1
       (map example_row [55, 56, 200, 400, 600]) initial_state = 4
   \<and> length (candidate_queue [1000, 2000, 3000] initial_state 1) = 3
   \<and> length (candidate_queue [1000, 2000, 3000]
       (process_waveforms example_config 5001 [1000, 2000, 3000]
          (map example_row [55, 56, 200, 400, 600]) initial_state) 1) = 0
   \<and> getPacket example_event 5001 = Some example_packet
   \<and> (EvalSample example_config \<or> EvalWaveform example_config)
   \<and> main_bco_list_of example_config 5001 example_packet (event_start initial_state)
       = [1000, 2000]
   \<and> consuming_calls example_config 5001 [1000, 2000] 1 (waveform_table example_packet)
       (loop_start example_config 5001 example_packet (event_start initial_state)) = 3
   \<and> candidate_queue [1000, 2000]
       (process_packet example_config example_event 5001 (event_start initial_state)) 1 = []"
proof -
  have n: "consuming_calls example_config 5001 [1000, 2000, 3000] 1
       (map example_row [55, 56, 200, 400, 600]) initial_state = 4"
    by (simp add: queue_step accepted_def in_tolerance_def match_state_def example_row_def
        example_config_def process_waveform_matching initial_state_def
        find_matching_lvl1_bco_def Let_def matching_input_def running_sample_def
        get_bco_diff_def max_fee_bco_diff_def subscript_map_def subscript_ref_def
        candidate_queue_def set_insert_def)
  have l: "length (candidate_queue [1000, 2000, 3000] initial_state 1) = 3"
    by (simp add: candidate_queue_def subscript_ref_def initial_state_def)
  have h: "getPacket example_event 5001 = Some example_packet
      \<and> (EvalSample example_config \<or> EvalWaveform example_config)"
    by (simp add: example_event_packet) (simp add: example_config_def)
  have m: "consuming_calls example_config 5001 [1000, 2000] 1 (waveform_table example_packet)
       (loop_start example_config 5001 example_packet (event_start initial_state)) = 3"
    by (simp add: example_packet_def loop_start_eq event_start_def queue_step accepted_def
        in_tolerance_def match_state_def example_row_def
        example_config_def process_waveform_matching initial_state_def
        find_matching_lvl1_bco_def Let_def matching_input_def running_sample_def
        get_bco_diff_def max_fee_bco_diff_def subscript_map_def subscript_ref_def
        candidate_queue_def set_insert_def)
  show ?thesis
    using n l h m example_main[of "event_start initial_state"]
      queue_consumption[of "[1000, 2000, 3000]" example_config 5001 "example_row 55"
        initial_state 1 "map example_row [55, 56, 200, 400, 600]" example_event example_packet
        "event_start initial_state"]
    by simp
qed

text \<open>
  C3 as stated, for one event, fails when a FEE sends rows in two packets of the
  event: after the first packet (one lvl1 tagger, one row out of tolerance) the queue
  of FEE 1 is empty, and at the end of the same event, after the second packet (three
  lvl1 taggers, one row out of tolerance), it holds two entries.
\<close>

theorem queue_consumption_counterexample:
  "bco_list_map (process_packet two_packet_config two_packet_event 5001
      (event_start initial_state)) 1 = Some []
   \<and> bco_list_map (snd (process_event two_packet_config two_packet_event initial_state)) 1
      = Some [3000, 4000]"
  by (simp add: process_event_eq two_packet_event_def two_packet_config_def
      process_packet_eval lvl1_bcos_def example_tagger_def event_start_def loop_eval_defs
      initial_state_def example_row_def Sample_default_def example_config_def)

text \<open>
  C4. A row that passes the bound check, is out of tolerance of its FEE's cached
  value and finds its FEE's candidate queue empty is an orphan: the matching assigns
  nothing (the running sample comes back as it went in, with \<open>lvl1_bco = 0\<close>), the
  cached MatchState of every FEE is unchanged, and every valid ADC entry of the row
  is emplaced in \<open>sample_map\<close> as a Sample with \<open>lvl1_bco = 0\<close> under the key 0: the
  map grows by exactly the number of valid entries among the scanned ones. When the
  row is a row of a packet of a processed event and samples are requested, these
  Samples are in the container's sample list after \<open>process_event\<close>: they stand
  there together and in index order among the samples of \<open>lvl1_bco = 0\<close>.
\<close>

theorem orphan_retained:
  assumes "accepted cfg row"
    and "\<not> in_tolerance st (FEE row) (BCO row)"
    and "candidate_queue main st (FEE row) = []"
  shows "fst (find_matching_lvl1_bco cfg main (matching_input cfg pid row) st)
           = matching_input cfg pid row
       \<and> Sample.lvl1_bco (matching_input cfg pid row) = 0
       \<and> match_state (process_waveform cfg pid main row st) = match_state st
       \<and> sample_emplaced (process_waveform cfg pid main row st) =
           sample_emplaced st @
           valid_samples cfg row (filled_sample cfg row (matching_input cfg pid row))
             [0 ..< scanned row]
       \<and> set (sample_map (process_waveform cfg pid main row st)) =
           set (sample_map st) \<union>
           (\<lambda>s. (0, s)) ` set (valid_samples cfg row
              (filled_sample cfg row (matching_input cfg pid row)) [0 ..< scanned row])
       \<and> length (sample_map (process_waveform cfg pid main row st)) =
           length (sample_map st)
           + length (filter (\<lambda>i. ADC row i \<noteq> m_adc_invalid cfg) [0 ..< scanned row])
       \<and> (\<forall>s \<in> set (valid_samples cfg row
              (filled_sample cfg row (matching_input cfg pid row)) [0 ..< scanned row]).
            Sample.lvl1_bco s = 0 \<and> Sample.fee_id s = FEE row \<and> Sample.fee_bco s = BCO row)
       \<and> (getEvtType event < 8 \<and> EvalSample cfg
            \<and> m_packet_ids cfg = pre @ pid # post
            \<and> getPacket event pid = Some packet
            \<and> waveform_table packet = rows1 @ row # rows2
            \<and> main = main_bco_list_of cfg pid packet
                 (fold (process_packet cfg event) pre (event_start st0))
            \<and> st = process_waveforms cfg pid main rows1
                 (loop_start cfg pid packet
                    (fold (process_packet cfg event) pre (event_start st0)))
          \<longrightarrow>
            (\<exists>before after.
               filter (\<lambda>s. Sample.lvl1_bco s = 0)
                 (samples (m_container (snd (process_event cfg event st0))))
               = before
                 @ valid_samples cfg row (filled_sample cfg row (matching_input cfg pid row))
                     [0 ..< scanned row]
                 @ after)
            \<and> set (valid_samples cfg row (filled_sample cfg row (matching_input cfg pid row))
                  [0 ..< scanned row])
                \<subseteq> set (samples (m_container (snd (process_event cfg event st0)))))"
proof -
  let ?smp = "matching_input cfg pid row"
  let ?S = "valid_samples cfg row (filled_sample cfg row ?smp) [0 ..< scanned row]"
  have a: "\<not> in_tolerance st (Sample.fee_id ?smp) (Sample.fee_bco ?smp)"
    using assms(2) by simp
  have b: "candidate_queue main st (Sample.fee_id ?smp) = []"
    using assms(3) by simp
  note orph = find_orphan[OF a b, of cfg]
  have f: "fst (find_matching_lvl1_bco cfg main ?smp st) = ?smp"
    unfolding orph by simp
  have rs: "row_samples cfg pid main row st = ?S"
    by (simp add: row_samples_def f)
  have ms: "match_state (process_waveform cfg pid main row st) = match_state st"
    by (rule ext) (simp add: match_state_def process_waveform_matching assms(1) orph)
  have keys: "\<forall>s \<in> set ?S.
      Sample.lvl1_bco s = 0 \<and> Sample.fee_id s = FEE row \<and> Sample.fee_bco s = BCO row"
    by (auto simp: valid_samples_def filled_sample_def)
  have se: "sample_emplaced (process_waveform cfg pid main row st) = sample_emplaced st @ ?S"
    using assms(1) by (simp add: process_waveform_eq Let_def rs)
  have sm: "sample_map (process_waveform cfg pid main row st) =
      emplace_all Sample.lvl1_bco ?S (sample_map st)"
    using assms(1) by (simp add: process_waveform_eq Let_def rs)
  have sset: "set (sample_map (process_waveform cfg pid main row st)) =
      set (sample_map st) \<union> (\<lambda>s. (0, s)) ` set ?S"
    unfolding sm set_emplace_all using keys
    by (intro arg_cong2[where f="(\<union>)"] refl image_cong) auto
  have slen: "length (sample_map (process_waveform cfg pid main row st)) =
      length (sample_map st)
      + length (filter (\<lambda>i. ADC row i \<noteq> m_adc_invalid cfg) [0 ..< scanned row])"
    unfolding sm length_emplace_all by (simp add: valid_samples_def)
  have ev: "(\<exists>before after.
               filter (\<lambda>s. Sample.lvl1_bco s = 0)
                 (samples (m_container (snd (process_event cfg event st0))))
               = before @ ?S @ after)
            \<and> set ?S \<subseteq> set (samples (m_container (snd (process_event cfg event st0))))"
    if h: "getEvtType event < 8" "EvalSample cfg" "m_packet_ids cfg = pre @ pid # post"
      "getPacket event pid = Some packet" "waveform_table packet = rows1 @ row # rows2"
      "main = main_bco_list_of cfg pid packet
         (fold (process_packet cfg event) pre (event_start st0))"
      "st = process_waveforms cfg pid main rows1
         (loop_start cfg pid packet (fold (process_packet cfg event) pre (event_start st0)))"
  proof -
    let ?sp = "fold (process_packet cfg event) pre (event_start st0)"
    have fl: "EvalSample cfg \<or> EvalWaveform cfg" using h(2) by simp
    have pk: "process_packet cfg event pid ?sp =
        process_waveforms cfg pid main rows2 (process_waveform cfg pid main row st)"
      unfolding process_packet_present[OF h(4) fl] h(5) process_waveforms_append
        process_waveforms_Cons h(6)[symmetric] h(7)[symmetric] ..
    obtain s1 where s1: "sample_emplaced (process_packet cfg event pid ?sp)
        = (sample_emplaced st @ ?S) @ s1"
      unfolding pk using emplaced_waveforms[of cfg pid main rows2
          "process_waveform cfg pid main row st"] se by auto
    obtain s2 where s2: "sample_emplaced (fold (process_packet cfg event) post
          (process_packet cfg event pid ?sp))
        = sample_emplaced (process_packet cfg event pid ?sp) @ s2"
      using emplaced_packets by blast
    have all: "sample_emplaced (fold (process_packet cfg event) (m_packet_ids cfg)
          (event_start st0)) = sample_emplaced st @ ?S @ s1 @ s2"
      unfolding h(3) using s1 s2 by simp
    have fS: "filter (\<lambda>s. Sample.lvl1_bco s = 0) ?S = ?S"
      using keys by (simp add: filter_id_conv)
    have flt: "filter (\<lambda>s. Sample.lvl1_bco s = 0)
          (samples (m_container (snd (process_event cfg event st0))))
        = filter (\<lambda>s. Sample.lvl1_bco s = 0) (sample_emplaced st) @ ?S
          @ filter (\<lambda>s. Sample.lvl1_bco s = 0) (s1 @ s2)"
      unfolding event_samples_filter[OF h(1) h(2)] all using fS by simp
    have sub: "set ?S \<subseteq> set (samples (m_container (snd (process_event cfg event st0))))"
    proof -
      have "set ?S \<subseteq> set (filter (\<lambda>s. Sample.lvl1_bco s = 0)
          (samples (m_container (snd (process_event cfg event st0)))))"
        unfolding flt by auto
      then show ?thesis by auto
    qed
    show ?thesis using flt sub by blast
  qed
  show ?thesis using f ms se sset slen keys ev by simp
qed


theorem orphan_retained_witness:
  "accepted example_config (example_row 56)
   \<and> \<not> in_tolerance third_row_state (FEE (example_row 56)) (BCO (example_row 56))
   \<and> candidate_queue [1000, 2000] third_row_state (FEE (example_row 56)) = []
   \<and> getEvtType example_event < 8 \<and> EvalSample example_config
   \<and> m_packet_ids example_config = [] @ 5001 # []
   \<and> getPacket example_event 5001 = Some example_packet
   \<and> waveform_table example_packet = [example_row 55, example_row 200] @ example_row 56 # []
   \<and> [1000, 2000] = main_bco_list_of example_config 5001 example_packet
        (fold (process_packet example_config example_event) [] (event_start initial_state))
   \<and> third_row_state = process_waveforms example_config 5001 [1000, 2000]
        [example_row 55, example_row 200]
        (loop_start example_config 5001 example_packet
           (fold (process_packet example_config example_event) [] (event_start initial_state)))
   \<and> match_state third_row_state 1 = (200, 2000)
   \<and> match_state (process_waveform example_config 5001 [1000, 2000] (example_row 56)
        third_row_state) = match_state third_row_state
   \<and> map adc (valid_samples example_config (example_row 56)
        (filled_sample example_config (example_row 56)
           (matching_input example_config 5001 (example_row 56)))
        [0 ..< scanned (example_row 56)]) = [5, 10]
   \<and> set (valid_samples example_config (example_row 56)
        (filled_sample example_config (example_row 56)
           (matching_input example_config 5001 (example_row 56)))
        [0 ..< scanned (example_row 56)])
      \<subseteq> set (samples (m_container
           (snd (process_event example_config example_event initial_state))))
   \<and> map Sample.lvl1_bco (samples (m_container
        (snd (process_event example_config example_event initial_state))))
      = [0, 0, 1000, 1000, 2000, 2000]"
proof -
  have h: "getEvtType example_event < 8 \<and> EvalSample example_config
      \<and> m_packet_ids example_config = [] @ 5001 # []
      \<and> getPacket example_event 5001 = Some example_packet
      \<and> waveform_table example_packet
          = [example_row 55, example_row 200] @ example_row 56 # []
      \<and> [1000, 2000] = main_bco_list_of example_config 5001 example_packet
          (fold (process_packet example_config example_event) [] (event_start initial_state))
      \<and> third_row_state = process_waveforms example_config 5001 [1000, 2000]
          [example_row 55, example_row 200]
          (loop_start example_config 5001 example_packet
             (fold (process_packet example_config example_event) []
                (event_start initial_state)))"
    by (simp add: example_event_packet example_main third_row_state_def)
       (simp add: example_event_def example_config_def example_packet_def)
  have v: "map adc (valid_samples example_config (example_row 56)
        (filled_sample example_config (example_row 56)
           (matching_input example_config 5001 (example_row 56)))
        [0 ..< scanned (example_row 56)]) = [5, 10]"
    by (simp add: valid_samples_def scanned_def upt_0_2 example_row_def example_config_def)
  show ?thesis
    using third_row_orphan h v example_event_samples
      orphan_retained[of example_config "example_row 56" third_row_state "[1000, 2000]" 5001
        example_event "[]" "[]" example_packet "[example_row 55, example_row 200]" "[]"
        initial_state]
    by blast
qed


section \<open>The orphan report\<close>

lemma orphan_inv_find:
  assumes "orphan_inv cfg pre st"
  shows "orphan_inv cfg pre (snd (find_matching_lvl1_bco cfg main smp st))"
proof (cases rule: find_cases[where st=st and smp=smp and main=main])
  case reuse
  show ?thesis using assms unfolding find_in_tolerance[OF reuse] by (simp add: orphan_inv_def)
next
  case (pop lvl1 rest)
  show ?thesis using assms unfolding find_pop[OF pop] by (simp add: orphan_inv_def)
next
  case orphan
  let ?p = "(ucast (Sample.fee_id smp), Sample.fee_bco smp) :: u32 \<times> u32"
  let ?l = "(Sample.fee_id smp, Sample.fee_bco smp)"
  from assms obtain new where new: "cout_orphans st = pre @ new" "distinct new"
    "(\<lambda>(f, b). (ucast f, b)) ` set new \<subseteq> orphans st" "Verbosity cfg = 0 \<longrightarrow> new = []"
    unfolding orphan_inv_def by blast
  show ?thesis
  proof (cases "Verbosity cfg \<noteq> 0 \<and> ?p \<notin> orphans st")
    case True
    have "?l \<notin> set new" using new(3) True by auto
    then have "cout_orphans st @ [?l] = pre @ (new @ [?l]) \<and> distinct (new @ [?l])
        \<and> (\<lambda>(f, b). (ucast f, b)) ` set (new @ [?l]) \<subseteq> insert ?p (orphans st)
        \<and> (Verbosity cfg = 0 \<longrightarrow> new @ [?l] = [])"
      using new True by auto
    then show ?thesis using True unfolding find_orphan[OF orphan] orphan_inv_def
      by simp
  next
    case False
    have "cout_orphans st = pre @ new \<and> distinct new
        \<and> (\<lambda>(f, b). (ucast f, b)) ` set new \<subseteq> insert ?p (orphans st)
        \<and> (\<lambda>(f, b). (ucast f, b)) ` set new \<subseteq> orphans st
        \<and> (Verbosity cfg = 0 \<longrightarrow> new = [])"
      using new by auto
    then show ?thesis using False unfolding find_orphan[OF orphan] orphan_inv_def
      by simp blast
  qed
qed

lemma orphan_inv_waveform:
  "orphan_inv cfg pre st \<Longrightarrow> orphan_inv cfg pre (process_waveform cfg pid main row st)"
  using orphan_inv_find[of cfg pre st main "matching_input cfg pid row"]
  by (simp add: orphan_inv_def process_waveform_matching)

lemma orphan_inv_waveforms:
  "orphan_inv cfg pre st \<Longrightarrow> orphan_inv cfg pre (process_waveforms cfg pid main rows st)"
  unfolding process_waveforms_def
  by (induction rows arbitrary: st) (simp_all add: orphan_inv_waveform)

lemma orphan_inv_packet:
  "orphan_inv cfg (cout_orphans st) (process_packet cfg event pid st)"
proof (cases "getPacket event pid")
  case None
  then show ?thesis by (simp add: process_packet_def orphan_inv_def)
next
  case (Some packet)
  obtain tg l' where f: "fold (process_tagger cfg pid) (tagger_table packet) (st, []) =
      (st\<lparr> m_container := (m_container st)\<lparr> taggers := tg \<rparr> \<rparr>, l')"
    using tagger_fold by blast
  have a: "orphan_inv cfg (cout_orphans st) (st\<lparr> m_container := (m_container st)\<lparr> taggers := tg \<rparr>,
      bco_list_map := Map.empty, orphans := {} \<rparr>)"
    by (simp add: orphan_inv_def)
  have b: "orphan_inv cfg (cout_orphans st) (st\<lparr> m_container := (m_container st)\<lparr> taggers := tg \<rparr> \<rparr>)"
    by (simp add: orphan_inv_def)
  show ?thesis
    using b orphan_inv_waveforms[OF a] by (simp add: process_packet_def Some f)
qed

lemma match_state_loop_start [simp]:
  "match_state (loop_start cfg pid packet sp) = match_state sp"
  by (rule ext) (simp add: match_state_def loop_start_eq)

lemma orphan_inv_refl: "orphan_inv cfg (cout_orphans st) st"
  by (simp add: orphan_inv_def)

text \<open>
  C8 (amended). The orphan tracker is the set \<open>orphans\<close>, a local of one iteration
  of the packet loop: the waveform loop of every packet starts with the empty set,
  whatever the previous packet or event left, and the set is asked only at non-zero
  verbosity. Inserting a pair reports whether it was absent: on the empty set the
  first insertion reports true, and an insertion repeated on the set the first one
  left reports false. So among the lines that one packet adds to the output every
  pair occurs at most once (and there is no line at verbosity 0); in the orphan
  branch at non-zero verbosity the pair is written when it is not yet in the set,
  and it is in the set afterwards. The deduplication does not reach the next packet:
  a packet whose first row is an orphan writes that pair, also when an earlier
  packet wrote it already.
\<close>

theorem orphan_dedup:
  "snd (set_insert {} p)
   \<and> \<not> snd (set_insert (fst (set_insert S p)) p)
   \<and> snd (set_insert S p) = (p \<notin> S)
   \<and> (\<exists>new. cout_orphans (process_packet cfg event pid st) = cout_orphans st @ new
         \<and> distinct new \<and> (Verbosity cfg = 0 \<longrightarrow> new = []))
   \<and> (\<not> in_tolerance st (Sample.fee_id smp) (Sample.fee_bco smp)
        \<and> candidate_queue main st (Sample.fee_id smp) = [] \<and> Verbosity cfg \<noteq> 0 \<longrightarrow>
        cout_orphans (snd (find_matching_lvl1_bco cfg main smp st)) =
          (if (ucast (Sample.fee_id smp), Sample.fee_bco smp) \<in> orphans st
           then cout_orphans st
           else cout_orphans st @ [(Sample.fee_id smp, Sample.fee_bco smp)])
        \<and> (ucast (Sample.fee_id smp), Sample.fee_bco smp)
             \<in> orphans (snd (find_matching_lvl1_bco cfg main smp st)))
   \<and> (getPacket event pid = Some packet \<and> (EvalSample cfg \<or> EvalWaveform cfg) \<longrightarrow>
        orphans (loop_start cfg pid packet sp) = {}
        \<and> process_packet cfg event pid sp =
            process_waveforms cfg pid (main_bco_list_of cfg pid packet sp)
              (waveform_table packet) (loop_start cfg pid packet sp)
        \<and> process_packet cfg event pid (sp\<lparr> orphans := S' \<rparr>) = process_packet cfg event pid sp)
   \<and> (getPacket event pid = Some packet \<and> (EvalSample cfg \<or> EvalWaveform cfg)
        \<and> Verbosity cfg \<noteq> 0 \<and> waveform_table packet = row # rows \<and> accepted cfg row
        \<and> \<not> in_tolerance sp (FEE row) (BCO row) \<and> main_bco_list_of cfg pid packet sp = []
        \<longrightarrow>
        (\<exists>rest. cout_orphans (process_packet cfg event pid sp)
                  = cout_orphans sp @ (FEE row, BCO row) # rest))"
proof -
  have a: "snd (set_insert {} p) \<and> \<not> snd (set_insert (fst (set_insert S p)) p)
      \<and> snd (set_insert S p) = (p \<notin> S)"
    by (simp add: set_insert_def)
  have b: "\<exists>new. cout_orphans (process_packet cfg event pid st) = cout_orphans st @ new
         \<and> distinct new \<and> (Verbosity cfg = 0 \<longrightarrow> new = [])"
    using orphan_inv_packet[of cfg st event pid] unfolding orphan_inv_def by blast
  have c: "\<not> in_tolerance st (Sample.fee_id smp) (Sample.fee_bco smp)
        \<and> candidate_queue main st (Sample.fee_id smp) = [] \<and> Verbosity cfg \<noteq> 0 \<longrightarrow>
        cout_orphans (snd (find_matching_lvl1_bco cfg main smp st)) =
          (if (ucast (Sample.fee_id smp), Sample.fee_bco smp) \<in> orphans st
           then cout_orphans st
           else cout_orphans st @ [(Sample.fee_id smp, Sample.fee_bco smp)])
        \<and> (ucast (Sample.fee_id smp), Sample.fee_bco smp)
             \<in> orphans (snd (find_matching_lvl1_bco cfg main smp st))"
    by (auto simp: find_orphan)
  have d: "orphans (loop_start cfg pid packet sp) = {}
        \<and> process_packet cfg event pid sp =
            process_waveforms cfg pid (main_bco_list_of cfg pid packet sp)
              (waveform_table packet) (loop_start cfg pid packet sp)
        \<and> process_packet cfg event pid (sp\<lparr> orphans := S' \<rparr>) = process_packet cfg event pid sp"
    if h: "getPacket event pid = Some packet" "EvalSample cfg \<or> EvalWaveform cfg"
    by (simp add: process_packet_present[OF h] loop_start_eq main_bco_list_of_eq)
  have e: "\<exists>rest. cout_orphans (process_packet cfg event pid sp)
                  = cout_orphans sp @ (FEE row, BCO row) # rest"
    if h: "getPacket event pid = Some packet" "EvalSample cfg \<or> EvalWaveform cfg"
      "Verbosity cfg \<noteq> 0" "waveform_table packet = row # rows" "accepted cfg row"
      "\<not> in_tolerance sp (FEE row) (BCO row)" "main_bco_list_of cfg pid packet sp = []"
  proof -
    let ?ls = "loop_start cfg pid packet sp"
    let ?smp = "matching_input cfg pid row"
    let ?st1 = "process_waveform cfg pid [] row ?ls"
    have t: "\<not> in_tolerance ?ls (Sample.fee_id ?smp) (Sample.fee_bco ?smp)"
      using h(6) by (simp add: in_tolerance_def)
    have q: "candidate_queue [] ?ls (Sample.fee_id ?smp) = []"
      by (simp add: queue_loop_start)
    have ls: "orphans ?ls = {}" "cout_orphans ?ls = cout_orphans sp"
      by (simp_all add: loop_start_eq)
    have "cout_orphans (snd (find_matching_lvl1_bco cfg [] ?smp ?ls))
        = cout_orphans sp @ [(FEE row, BCO row)]"
      unfolding find_orphan[OF t q, of cfg] using h(3) ls by simp
    then have first: "cout_orphans ?st1 = cout_orphans sp @ [(FEE row, BCO row)]"
      using h(5) by (simp add: process_waveform_matching)
    have pk: "process_packet cfg event pid sp = process_waveforms cfg pid [] rows ?st1"
      unfolding process_packet_present[OF h(1) h(2)] h(4) h(7) process_waveforms_Cons ..
    obtain new where "cout_orphans (process_waveforms cfg pid [] rows ?st1)
        = cout_orphans ?st1 @ new"
      using orphan_inv_waveforms[OF orphan_inv_refl, of cfg ?st1 pid "[]" rows]
      unfolding orphan_inv_def by blast
    then have "cout_orphans (process_packet cfg event pid sp)
        = cout_orphans sp @ (FEE row, BCO row) # new"
      unfolding pk first by simp
    then show ?thesis by blast
  qed
  show ?thesis using a b c d e by blast
qed

text \<open>
  The same orphan twice: from the initial state the first matching writes the line
  and leaves \<open>reported_state\<close>, the second, in the same packet, writes nothing; the
  second packet of \<open>repeated_orphan_event\<close> starts after the pair was written and
  writes it again.
\<close>

lemma after_first_packet_eval:
  "cout_orphans after_first_packet = [(1, 55)]
   \<and> match_state after_first_packet 1 = (0, 0)
   \<and> (1, 55) \<in> orphans after_first_packet"
  by (simp add: after_first_packet_def repeated_orphan_event_def two_packet_config_def
      process_packet_eval lvl1_bcos_def event_start_def loop_eval_defs
      initial_state_def adc_row_def Sample_default_def example_config_def)

lemma reported_state_eval:
  "snd (find_matching_lvl1_bco example_config [] (example_sample 55) initial_state)
     = reported_state
   \<and> snd (find_matching_lvl1_bco example_config [] (example_sample 55) reported_state)
     = reported_state"
  by (simp add: reported_state_def find_matching_lvl1_bco_def Let_def subscript_ref_def
      subscript_map_def get_bco_diff_def max_fee_bco_diff_def set_insert_def
      initial_state_def example_sample_def Sample_default_def example_config_def)

theorem orphan_dedup_witness:
  "snd (find_matching_lvl1_bco example_config [] (example_sample 55) initial_state)
     = reported_state
   \<and> \<not> in_tolerance reported_state (Sample.fee_id (example_sample 55))
       (Sample.fee_bco (example_sample 55))
   \<and> candidate_queue [] reported_state (Sample.fee_id (example_sample 55)) = []
   \<and> Verbosity example_config \<noteq> 0
   \<and> (1, 55) \<in> orphans reported_state
   \<and> cout_orphans reported_state = [(1, 55)]
   \<and> cout_orphans (snd (find_matching_lvl1_bco example_config [] (example_sample 55)
        reported_state)) = [(1, 55)]
   \<and> getPacket repeated_orphan_event 5002
       = Some \<lparr> tagger_table = [], waveform_table = [adc_row []] \<rparr>
   \<and> (EvalSample two_packet_config \<or> EvalWaveform two_packet_config)
   \<and> Verbosity two_packet_config \<noteq> 0
   \<and> accepted two_packet_config (adc_row [])
   \<and> \<not> in_tolerance after_first_packet (FEE (adc_row [])) (BCO (adc_row []))
   \<and> main_bco_list_of two_packet_config 5002
        \<lparr> tagger_table = [], waveform_table = [adc_row []] \<rparr> after_first_packet = []
   \<and> cout_orphans after_first_packet = [(1, 55)]
   \<and> (1, 55) \<in> orphans after_first_packet
   \<and> (\<exists>rest. cout_orphans (process_packet two_packet_config repeated_orphan_event 5002
                  after_first_packet) = [(1, 55)] @ (1, 55) # rest)"
proof -
  let ?smp = "example_sample 55"
  let ?pk = "\<lparr> tagger_table = [], waveform_table = [adc_row []] \<rparr>"
  have s: "Sample.fee_id ?smp = 1" "Sample.fee_bco ?smp = 55"
    by (simp_all add: example_sample_def)
  have h1: "\<not> in_tolerance reported_state (Sample.fee_id ?smp) (Sample.fee_bco ?smp)
      \<and> candidate_queue [] reported_state (Sample.fee_id ?smp) = []
      \<and> Verbosity example_config \<noteq> 0"
    unfolding s
    by (simp add: in_tolerance_def match_state_def candidate_queue_def subscript_ref_def
        reported_state_def example_config_def)
  have o: "(1, 55) \<in> orphans reported_state" "cout_orphans reported_state = [(1, 55)]"
    by (simp_all add: reported_state_def)
  have h2: "getPacket repeated_orphan_event 5002 = Some ?pk
      \<and> (EvalSample two_packet_config \<or> EvalWaveform two_packet_config)
      \<and> Verbosity two_packet_config \<noteq> 0
      \<and> waveform_table ?pk = adc_row [] # []
      \<and> accepted two_packet_config (adc_row [])
      \<and> \<not> in_tolerance after_first_packet (FEE (adc_row [])) (BCO (adc_row []))
      \<and> main_bco_list_of two_packet_config 5002 ?pk after_first_packet = []"
    using after_first_packet_eval
    by (simp add: repeated_orphan_event_def two_packet_config_def example_config_def
        accepted_def adc_row_def in_tolerance_def main_bco_list_of_eq lvl1_bcos_def)
  have r: "FEE (adc_row []) = 1" "BCO (adc_row []) = 55"
    by (simp_all add: adc_row_def)
  have c1: "cout_orphans (snd (find_matching_lvl1_bco example_config [] ?smp reported_state))
      = (if (ucast (Sample.fee_id ?smp), Sample.fee_bco ?smp) \<in> orphans reported_state
         then cout_orphans reported_state
         else cout_orphans reported_state @ [(Sample.fee_id ?smp, Sample.fee_bco ?smp)])"
    using h1
      orphan_dedup[where p = "(1 :: u32, 55 :: u32)" and S = "{}" and cfg = example_config
        and event = orphan_event and pid = 5001 and st = reported_state and smp = ?smp
        and main = "[]" and packet = ?pk and sp = initial_state and S' = "{}"
        and row = "adc_row []" and rows = "[]"]
    by blast
  have c1': "cout_orphans (snd (find_matching_lvl1_bco example_config [] ?smp reported_state))
      = [(1, 55)]"
    unfolding c1 s using o by simp
  have c2: "\<exists>rest. cout_orphans (process_packet two_packet_config repeated_orphan_event 5002
        after_first_packet)
      = cout_orphans after_first_packet @ (FEE (adc_row []), BCO (adc_row [])) # rest"
    using h2
      orphan_dedup[where p = "(1 :: u32, 55 :: u32)" and S = "{}" and cfg = two_packet_config
        and event = repeated_orphan_event and pid = 5002 and st = initial_state
        and smp = ?smp and main = "[]" and packet = ?pk and sp = after_first_packet
        and S' = "{}" and row = "adc_row []" and rows = "[]"]
    by blast
  have c2': "\<exists>rest. cout_orphans (process_packet two_packet_config repeated_orphan_event 5002
        after_first_packet) = [(1, 55)] @ (1, 55) # rest"
    using c2 after_first_packet_eval unfolding r by simp
  show ?thesis
    using h1 h2 o reported_state_eval after_first_packet_eval c1' c2' by blast
qed

text \<open>
  C8 as stated fails across packets and across events: the first packet of
  \<open>repeated_orphan_event\<close> writes the orphan pair once for its two rows, the whole
  event writes it twice, and two successive events with the same orphan write it in
  both, because each packet starts with an empty \<open>orphans\<close>.
\<close>

lemmas orphan_event_defs =
  process_event_def process_packet_def orphan_event_def process_waveforms_def
  process_waveform_eq Let_def accepted_def row_samples_def scanned_def valid_samples_def
  find_matching_lvl1_bco_def matching_input_def running_sample_def subscript_ref_def
  subscript_map_def get_bco_diff_def max_fee_bco_diff_def set_insert_def initial_state_def
  adc_row_def Sample_default_def example_config_def emplace_all_def Reset_def

lemma orphan_event_first:
  "snd (process_event (example_config\<lparr> EvalWaveform := False \<rparr>) orphan_event initial_state) =
     initial_state\<lparr> m_fee_bco_matching_map := [1 \<mapsto> (0, 0)], m_bco_map := [(0, 1)],
        bco_list_map := [1 \<mapsto> []], orphans := {(1, 55)}, cout_orphans := [(1, 55)] \<rparr>"
  by (simp add: orphan_event_defs)

lemma orphan_event_second:
  "cout_orphans (snd (process_event (example_config\<lparr> EvalWaveform := False \<rparr>) orphan_event
     (initial_state\<lparr> m_fee_bco_matching_map := [1 \<mapsto> (0, 0)], m_bco_map := [(0, 1)],
        bco_list_map := [1 \<mapsto> []], orphans := {(1, 55)}, cout_orphans := [(1, 55)] \<rparr>)))
   = [(1, 55), (1, 55)]"
  by (simp add: orphan_event_defs)

theorem orphan_dedup_counterexample:
  "cout_orphans (process_packet two_packet_config repeated_orphan_event 5001
      (event_start initial_state)) = [(1, 55)]
   \<and> cout_orphans (snd (process_event two_packet_config repeated_orphan_event initial_state))
      = [(1, 55), (1, 55)]
   \<and> cout_orphans (snd (process_event (example_config\<lparr> EvalWaveform := False \<rparr>) orphan_event
      (snd (process_event (example_config\<lparr> EvalWaveform := False \<rparr>) orphan_event
         initial_state))))
      = [(1, 55), (1, 55)]"
proof -
  have a: "cout_orphans (process_packet two_packet_config repeated_orphan_event 5001
      (event_start initial_state)) = [(1, 55)]
   \<and> cout_orphans (snd (process_event two_packet_config repeated_orphan_event initial_state))
      = [(1, 55), (1, 55)]"
    by (simp add: process_event_eq repeated_orphan_event_def two_packet_config_def
        process_packet_eval lvl1_bcos_def event_start_def loop_eval_defs
        initial_state_def adc_row_def Sample_default_def example_config_def)
  have b: "cout_orphans (snd (process_event (example_config\<lparr> EvalWaveform := False \<rparr>)
      orphan_event (snd (process_event (example_config\<lparr> EvalWaveform := False \<rparr>)
         orphan_event initial_state)))) = [(1, 55), (1, 55)]"
    unfolding orphan_event_first by (rule orphan_event_second)
  show ?thesis using a b by simp
qed

section \<open>The bco histogram\<close>

lemma bco_step:
  "m_bco_map (process_waveform cfg pid main row st) =
     (if accepted cfg row
      then increment (Sample.lvl1_bco (fst (find_matching_lvl1_bco cfg main
             (matching_input cfg pid row) st))) (m_bco_map st)
      else m_bco_map st)"
  by (simp add: process_waveform_eq Let_def)

lemma bco_waveforms:
  "\<exists>ks. length ks = length (filter (accepted cfg) rows)
     \<and> m_bco_map (process_waveforms cfg pid main rows st) = fold increment ks (m_bco_map st)"
proof (induction rows arbitrary: st)
  case Nil
  have "length [] = length (filter (accepted cfg) [])
      \<and> m_bco_map (process_waveforms cfg pid main [] st) = fold increment [] (m_bco_map st)"
    by (simp add: process_waveforms_def)
  then show ?case by blast
next
  case (Cons row rows)
  let ?st = "process_waveform cfg pid main row st"
  obtain ks where ks: "length ks = length (filter (accepted cfg) rows)"
    "m_bco_map (process_waveforms cfg pid main rows ?st) = fold increment ks (m_bco_map ?st)"
    using Cons.IH by blast
  have run: "process_waveforms cfg pid main (row # rows) st = process_waveforms cfg pid main rows ?st"
    by (simp add: process_waveforms_def)
  show ?case
  proof (cases "accepted cfg row")
    case True
    let ?k = "Sample.lvl1_bco (fst (find_matching_lvl1_bco cfg main (matching_input cfg pid row) st))"
    have "length (?k # ks) = length (filter (accepted cfg) (row # rows))
        \<and> m_bco_map (process_waveforms cfg pid main (row # rows) st)
            = fold increment (?k # ks) (m_bco_map st)"
      using True ks run by (simp add: bco_step)
    then show ?thesis by blast
  next
    case False
    have "length ks = length (filter (accepted cfg) (row # rows))
        \<and> m_bco_map (process_waveforms cfg pid main (row # rows) st)
            = fold increment ks (m_bco_map st)"
      using False ks run by (simp add: bco_step)
    then show ?thesis by blast
  qed
qed

lemma bco_packet:
  "\<exists>ks. length ks = length (packet_rows cfg event pid)
     \<and> m_bco_map (process_packet cfg event pid st) = fold increment ks (m_bco_map st)"
proof (cases "getPacket event pid")
  case None
  have "length [] = length (packet_rows cfg event pid)
      \<and> m_bco_map (process_packet cfg event pid st) = fold increment [] (m_bco_map st)"
    by (simp add: packet_rows_def process_packet_def None)
  then show ?thesis by blast
next
  case (Some packet)
  obtain tg l' where f: "fold (process_tagger cfg pid) (tagger_table packet) (st, []) =
      (st\<lparr> m_container := (m_container st)\<lparr> taggers := tg \<rparr> \<rparr>, l')"
    using tagger_fold by blast
  show ?thesis
  proof (cases "EvalSample cfg \<or> EvalWaveform cfg")
    case True
    let ?st = "st\<lparr> m_container := (m_container st)\<lparr> taggers := tg \<rparr>,
        bco_list_map := Map.empty, orphans := {} \<rparr>"
    obtain ks where "length ks = length (filter (accepted cfg) (waveform_table packet))"
      "m_bco_map (process_waveforms cfg pid l' (waveform_table packet) ?st)
         = fold increment ks (m_bco_map ?st)"
      using bco_waveforms by blast
    then have "length ks = length (packet_rows cfg event pid)
        \<and> m_bco_map (process_packet cfg event pid st) = fold increment ks (m_bco_map st)"
      using True by (simp add: packet_rows_def process_packet_def Some f)
    then show ?thesis by blast
  next
    case False
    have "length [] = length (packet_rows cfg event pid)
        \<and> m_bco_map (process_packet cfg event pid st) = fold increment [] (m_bco_map st)"
      using False by (simp add: packet_rows_def process_packet_def Some f)
    then show ?thesis by blast
  qed
qed

lemma bco_packets:
  "\<exists>ks. length ks = length (concat (map (packet_rows cfg event) pids))
     \<and> m_bco_map (fold (process_packet cfg event) pids st) = fold increment ks (m_bco_map st)"
proof (induction pids arbitrary: st)
  case Nil
  have "length [] = length (concat (map (packet_rows cfg event) []))
     \<and> m_bco_map (fold (process_packet cfg event) [] st) = fold increment [] (m_bco_map st)"
    by simp
  then show ?case by blast
next
  case (Cons pid pids)
  let ?st = "process_packet cfg event pid st"
  obtain k1 where k1: "length k1 = length (packet_rows cfg event pid)"
    "m_bco_map ?st = fold increment k1 (m_bco_map st)"
    using bco_packet by blast
  obtain k2 where k2: "length k2 = length (concat (map (packet_rows cfg event) pids))"
    "m_bco_map (fold (process_packet cfg event) pids ?st) = fold increment k2 (m_bco_map ?st)"
    using Cons.IH by blast
  have "length (k1 @ k2) = length (concat (map (packet_rows cfg event) (pid # pids)))
     \<and> m_bco_map (fold (process_packet cfg event) (pid # pids) st)
         = fold increment (k1 @ k2) (m_bco_map st)"
    using k1 k2 by simp
  then show ?case by blast
qed

lemma bco_event:
  assumes "getEvtType event < 8"
  shows "\<exists>ks. length ks = length (event_rows cfg event)
     \<and> m_bco_map (snd (process_event cfg event st)) = fold increment ks (m_bco_map st)"
proof -
  let ?st0 = "st\<lparr> m_container := Reset (m_container st), sample_map := [], waveform_map := [],
      sample_emplaced := [], waveform_emplaced := [] \<rparr>"
  obtain ks where ks: "length ks = length (concat (map (packet_rows cfg event) (m_packet_ids cfg)))"
    "m_bco_map (fold (process_packet cfg event) (m_packet_ids cfg) ?st0)
       = fold increment ks (m_bco_map ?st0)"
    using bco_packets by blast
  have "m_bco_map (snd (process_event cfg event st))
      = m_bco_map (fold (process_packet cfg event) (m_packet_ids cfg) ?st0)"
    using assms by (simp add: process_event_def Let_def)
  then have "length ks = length (event_rows cfg event)
     \<and> m_bco_map (snd (process_event cfg event st)) = fold increment ks (m_bco_map st)"
    using ks by (simp add: event_rows_def)
  then show ?thesis by blast
qed

lemma map_of_less:
  "sorted_wrt (<) (map fst m) \<Longrightarrow> \<forall>p \<in> set m. k < fst p \<Longrightarrow> map_of m (k :: u64) = None"
  by (induction m) auto

lemma increment_lower:
  "\<forall>x \<in> set m. a < fst x \<Longrightarrow> a < k \<Longrightarrow> \<forall>x \<in> set (increment k m). a < fst x"
proof (induction m)
  case Nil
  then show ?case by simp
next
  case (Cons p m)
  obtain q c where p: "p = (q, c)" by (cases p)
  have ih: "\<forall>x \<in> set (increment k m). a < fst x" using Cons by simp
  have hd: "a < q" using Cons.prems(1) p by simp
  have tl: "\<forall>x \<in> set m. a < fst x" using Cons.prems(1) by simp
  show ?case unfolding p using ih hd tl Cons.prems(2) by simp
qed

lemma increment_sorted:
  "sorted_wrt (<) (map fst m) \<Longrightarrow> sorted_wrt (<) (map fst (increment k m))"
proof (induction m)
  case Nil
  show ?case by simp
next
  case (Cons p m)
  obtain k' c where p: "p = (k', c)" by (cases p)
  show ?case
  proof (cases "k = k' \<or> k < k'")
    case True
    then show ?thesis using Cons.prems p by auto
  next
    case False
    then have "k' < k" by auto
    moreover have "sorted_wrt (<) (map fst (increment k m))" using Cons by simp
    moreover have "\<forall>x \<in> set (increment k m). k' < fst x"
      using Cons.prems p \<open>k' < k\<close> by (intro increment_lower) auto
    ultimately show ?thesis using p False by auto
  qed
qed

lemma map_of_increment:
  "sorted_wrt (<) (map fst m) \<Longrightarrow>
   map_of (increment k m) x =
     (if x = k then Some (case map_of m k of None \<Rightarrow> 1 | Some c \<Rightarrow> c + 1) else map_of m x)"
proof (induction m)
  case Nil
  show ?case by simp
next
  case (Cons p m)
  obtain q c where p: "p = (q, c)" by (cases p)
  show ?case
  proof (cases "k = q")
    case True
    then show ?thesis using p by simp
  next
    case False
    show ?thesis
    proof (cases "k < q")
      case True
      have "\<forall>x \<in> set (p # m). k < fst x" using Cons.prems True p by auto
      then have "map_of (p # m) k = None" using Cons.prems map_of_less by blast
      then show ?thesis using True False p by simp
    next
      case g: False
      have "map_of (increment k m) x =
          (if x = k then Some (case map_of m k of None \<Rightarrow> 1 | Some c \<Rightarrow> c + 1) else map_of m x)"
        using Cons by simp
      then show ?thesis using g False p by auto
    qed
  qed
qed

lemma increment_count:
  "sorted_wrt (<) (map fst m) \<Longrightarrow>
   bco_count (increment k m) k' = (if k' = k then bco_count m k + 1 else bco_count m k')"
  by (simp add: bco_count_def map_of_increment split: option.splits)

text \<open>
  C9 (amended). \<open>m_bco_map\<close> is incremented exactly once per waveform row that
  passes the bound check, at the row's assigned lvl1 bco and whatever the number of
  its valid ADC entries; a row that fails the check leaves it as it is. On a map
  with increasing keys the increment adds one to the count of its key and keeps the
  other counts. A processed event applies to the map of the previous events one
  increment per such row of the event and nothing else, a discarded event leaves the
  state as it is, and \<open>End\<close> prints the map (at non-zero verbosity) without changing
  it.
\<close>

theorem bco_histogram:
  "m_bco_map (process_waveform cfg pid main row st) =
     (if accepted cfg row
      then increment (Sample.lvl1_bco (fst (find_matching_lvl1_bco cfg main
             (matching_input cfg pid row) st))) (m_bco_map st)
      else m_bco_map st)
   \<and> (sorted_wrt (<) (map fst m) \<longrightarrow>
        sorted_wrt (<) (map fst (increment k m))
        \<and> bco_count (increment k m) k' = (if k' = k then bco_count m k + 1 else bco_count m k'))
   \<and> (getEvtType event < 8 \<longrightarrow>
        (\<exists>ks. length ks = length (event_rows cfg event)
           \<and> m_bco_map (snd (process_event cfg event st)) = fold increment ks (m_bco_map st)))
   \<and> (8 \<le> getEvtType event \<longrightarrow> snd (process_event cfg event st) = st)
   \<and> snd (End cfg st) = st
   \<and> fst (End cfg st) =
       (if Verbosity cfg \<noteq> 0 then (m_bco_map st, map fst (m_bco_map st)) else ([], []))"
proof -
  have a: "sorted_wrt (<) (map fst m) \<longrightarrow>
        sorted_wrt (<) (map fst (increment k m))
        \<and> bco_count (increment k m) k' = (if k' = k then bco_count m k + 1 else bco_count m k')"
    using increment_sorted increment_count by blast
  have b: "getEvtType event < 8 \<longrightarrow>
        (\<exists>ks. length ks = length (event_rows cfg event)
           \<and> m_bco_map (snd (process_event cfg event st)) = fold increment ks (m_bco_map st))"
    using bco_event by blast
  have c: "8 \<le> getEvtType event \<longrightarrow> snd (process_event cfg event st) = st"
    by (simp add: process_event_def)
  have d: "snd (End cfg st) = st \<and> fst (End cfg st) =
       (if Verbosity cfg \<noteq> 0 then (m_bco_map st, map fst (m_bco_map st)) else ([], []))"
    by (simp add: End_def)
  show ?thesis using bco_step a b c d by blast
qed

theorem bco_histogram_witness:
  "sorted_wrt (<) (map fst [(1000 :: u64, 3 :: u32)])
   \<and> bco_count (increment 1000 [(1000, 3)]) 1000 = 4
   \<and> getEvtType example_event < 8
   \<and> (\<exists>ks. length ks = length (event_rows example_config example_event)
         \<and> m_bco_map (snd (process_event example_config example_event initial_state))
             = fold increment ks (m_bco_map initial_state))
   \<and> length (event_rows example_config example_event) = 3"
proof -
  have h1: "sorted_wrt (<) (map fst [(1000 :: u64, 3 :: u32)])" by simp
  have h2: "getEvtType example_event < 8" by (simp add: example_event_def)
  have c: "bco_count [(1000, 3)] 1000 = 3" by (simp add: bco_count_def)
  have n: "length (event_rows example_config example_event) = 3"
    by (simp add: event_rows_def packet_rows_def example_event_def example_config_def
        accepted_def example_row_def)
  show ?thesis
    using h1 h2 c n
      bco_histogram[of example_config 5001 "[]" "example_row 55" initial_state "[(1000, 3)]"
        1000 1000 example_event]
    by simp
qed

text \<open>
  C9 as stated fails for a waveform with several samples: a row with two valid ADC
  entries yields two Sample records of lvl1 bco 1000 and one increment of the count
  of 1000.
\<close>

theorem bco_histogram_counterexample:
  "m_bco_map (process_waveform example_config 5001 [1000] (example_row 55) initial_state)
     = [(1000, 1)]
   \<and> map Sample.lvl1_bco (sample_emplaced
        (process_waveform example_config 5001 [1000] (example_row 55) initial_state))
     = [1000, 1000]
   \<and> map adc (sample_emplaced
        (process_waveform example_config 5001 [1000] (example_row 55) initial_state))
     = [5, 10]"
  by (simp add: process_waveform_eq Let_def accepted_def row_samples_def scanned_def upt_0_2
      valid_samples_def sample_at_def find_matching_lvl1_bco_def matching_input_def
      running_sample_def filled_sample_def subscript_ref_def subscript_map_def
      get_bco_diff_def max_fee_bco_diff_def set_insert_def initial_state_def
      example_row_def Sample_default_def example_config_def emplace_all_def)

section \<open>The end-to-end scenario\<close>

text \<open>
  C1. In one event with tolerance 10, for a single FEE whose candidate queue holds
  [1000, 2000, 3000] and whose cached MatchState is the default, matching the local
  timestamps 55, 56, 57, 200, 201 in that order assigns the global timestamps 1000,
  1000, 1000, 2000, 2000 in that order and leaves the FEE's candidate queue equal to
  [3000] (and its cached MatchState equal to (200, 2000)). First, the five matchings
  run one after the other from the initial state, each on the state the previous one
  left, for an arbitrary FEE \<open>f\<close> and configuration. Second, the waveform loop of a
  packet whose lvl1 taggers are 1000, 2000, 3000 and whose five rows belong to FEE 1
  and carry these local timestamps: it counts three waveforms at 1000 and two at
  2000, and leaves the queue [3000] and the cached pair (200, 2000).
\<close>

theorem end_to_end_correlation:
  "fold (\<lambda>b (assigned, st).
           case find_matching_lvl1_bco cfg [1000, 2000, 3000]
                  (Sample_default\<lparr> Sample.fee_id := f, Sample.fee_bco := b \<rparr>) st of
             (smp, st') \<Rightarrow> (assigned @ [Sample.lvl1_bco smp], st'))
        [55, 56, 57, 200, 201] ([], initial_state)
   = ([1000, 1000, 1000, 2000, 2000],
      initial_state\<lparr> m_fee_bco_matching_map := [f \<mapsto> (200, 2000)],
                     bco_list_map := [f \<mapsto> [3000]] \<rparr>)
   \<and> m_bco_map (process_waveforms example_config 5001 [1000, 2000, 3000]
        (map example_row [55, 56, 57, 200, 201]) initial_state) = [(1000, 3), (2000, 2)]
   \<and> candidate_queue [1000, 2000, 3000]
        (process_waveforms example_config 5001 [1000, 2000, 3000]
           (map example_row [55, 56, 57, 200, 201]) initial_state) 1 = [3000]
   \<and> match_state (process_waveforms example_config 5001 [1000, 2000, 3000]
        (map example_row [55, 56, 57, 200, 201]) initial_state) 1 = (200, 2000)"
proof -
  have calls: "fold (\<lambda>b (assigned, st).
           case find_matching_lvl1_bco cfg [1000, 2000, 3000]
                  (Sample_default\<lparr> Sample.fee_id := f, Sample.fee_bco := b \<rparr>) st of
             (smp, st') \<Rightarrow> (assigned @ [Sample.lvl1_bco smp], st'))
        [55, 56, 57, 200, 201] ([], initial_state)
   = ([1000, 1000, 1000, 2000, 2000],
      initial_state\<lparr> m_fee_bco_matching_map := [f \<mapsto> (200, 2000)],
                     bco_list_map := [f \<mapsto> [3000]] \<rparr>)"
    by (simp add: find_matching_lvl1_bco_def Let_def subscript_ref_def subscript_map_def
        initial_state_def get_bco_diff_def max_fee_bco_diff_def Sample_default_def)
  have loop: "m_bco_map (process_waveforms example_config 5001 [1000, 2000, 3000]
        (map example_row [55, 56, 57, 200, 201]) initial_state) = [(1000, 3), (2000, 2)]
   \<and> candidate_queue [1000, 2000, 3000]
        (process_waveforms example_config 5001 [1000, 2000, 3000]
           (map example_row [55, 56, 57, 200, 201]) initial_state) 1 = [3000]
   \<and> match_state (process_waveforms example_config 5001 [1000, 2000, 3000]
        (map example_row [55, 56, 57, 200, 201]) initial_state) 1 = (200, 2000)"
    by (simp add: process_waveforms_def bco_step process_waveform_matching accepted_def
        match_state_def candidate_queue_def find_matching_lvl1_bco_def Let_def
        matching_input_def running_sample_def subscript_ref_def subscript_map_def
        get_bco_diff_def max_fee_bco_diff_def set_insert_def initial_state_def
        example_row_def Sample_default_def example_config_def)
  show ?thesis using calls loop by (rule conjI)
qed

end
